theory Spec2Isabelle
  imports Complex_Main "HOL-Library.Multiset"
begin

chapter \<open>Model\<close>

section \<open>Strings\<close>

text \<open>
  Strings are byte strings (\<^typ>\<open>string\<close>). The helpers below follow the JavaScript string
  methods the client uses, on ASCII text: \<open>toLowerCase\<close> maps \<open>A\<close>..\<open>Z\<close> to
  \<open>a\<close>..\<open>z\<close>, \<open>trim\<close> removes leading and trailing ASCII white space
  (space, tab, line feed, vertical tab, form feed, carriage return).
\<close>

definition lowerChar :: "char \<Rightarrow> char" where
  "lowerChar c =
     (case map_of (zip ''ABCDEFGHIJKLMNOPQRSTUVWXYZ'' ''abcdefghijklmnopqrstuvwxyz'') c of
        None \<Rightarrow> c
      | Some l \<Rightarrow> l)"

definition toLowerCase :: "string \<Rightarrow> string" where
  "toLowerCase s = map lowerChar s"

definition isWhiteSpace :: "char \<Rightarrow> bool" where
  "isWhiteSpace c = (c \<in> set [CHR 0x09, CHR 0x0A, CHR 0x0B, CHR 0x0C, CHR 0x0D, CHR '' ''])"

definition trim :: "string \<Rightarrow> string" where
  "trim s = rev (dropWhile isWhiteSpace (rev (dropWhile isWhiteSpace s)))"

fun startsWith :: "string \<Rightarrow> string \<Rightarrow> bool" where
  "startsWith s [] = True"
| "startsWith [] (p # ps) = False"
| "startsWith (c # cs) (p # ps) = (c = p \<and> startsWith cs ps)"

section \<open>Response cache (api/visualNovelClient.ts)\<close>

text \<open>
  A cache store is the \<open>Map<string, { expiresAt, payload }>\<close> of the client. \<open>Date.now()\<close>
  is passed in as the integer \<open>now\<close> (milliseconds); both operations return the store they
  leave behind.
\<close>

record 'p cache_entry =
  expiresAt :: int
  payload :: 'p

type_synonym 'p cache_store = "string \<rightharpoonup> 'p cache_entry"

definition CACHE_TIME_TO_LIVE_MILLISECONDS :: int where
  "CACHE_TIME_TO_LIVE_MILLISECONDS = 5 * 60 * 1000"

definition readFromCache :: "int \<Rightarrow> 'p cache_store \<Rightarrow> string \<Rightarrow> 'p cache_store \<times> 'p option" where
  "readFromCache now cacheStore cacheKey =
     (case cacheStore cacheKey of
        None \<Rightarrow> (cacheStore, None)
      | Some cachedEntry \<Rightarrow>
          if now > expiresAt cachedEntry
          then (cacheStore(cacheKey := None), None)
          else (cacheStore, Some (payload cachedEntry)))"

definition writeToCache :: "int \<Rightarrow> 'p cache_store \<Rightarrow> string \<Rightarrow> 'p \<Rightarrow> 'p cache_store" where
  "writeToCache now cacheStore cacheKey p =
     cacheStore(cacheKey \<mapsto> \<lparr>expiresAt = now + CACHE_TIME_TO_LIVE_MILLISECONDS, payload = p\<rparr>)"

section \<open>The network boundary\<close>

text \<open>
  \<open>fetch\<close> either rejects (the request never came back) or resolves with a response that has
  a status and a body; \<open>response.ok\<close> is the Fetch standard's "status in 200..299". The
  remote is a function from the request to its outcome, and every operation returns the
  requests it issued, in order, next to its result.
\<close>

datatype http_method = GET | POST | PATCH | DELETE

text \<open>
  The JSON bodies the client sends: none, \<open>{labels_set}\<close>, \<open>{labels}\<close>,
  \<open>{labels_unset, labels_set}\<close>, and the list query \<open>{user, fields, results, page}\<close>.
\<close>

datatype request_body =
    NoBody
  | LabelsSetBody "int list"
  | LabelsBody "int list"
  | StatusBody "int list" "int list"
  | UlistBody string string nat nat

record http_request =
  reqUrl :: string
  reqMethod :: http_method
  reqAuthorization :: "string option"
  reqBody :: request_body

datatype 'b fetch_outcome = FetchRejected string | FetchResponse nat 'b

definition ok :: "nat \<Rightarrow> bool" where
  "ok st = (200 \<le> st \<and> st \<le> 299)"

text \<open>The \<open>Error\<close> values the client throws, one constructor per \<open>throw\<close>.\<close>

datatype client_error =
    TransportError string
  | AddMissingIdentifier
  | AddFailedBeforeReaching string
  | AddFailed nat string
  | UpdateStatusFailed nat
  | RemoveFailed nat
  | UserListFailed nat
  | IdentifierSetFailed nat

definition buildVndbApiUrl :: "string \<Rightarrow> string \<Rightarrow> string" where
  "buildVndbApiUrl baseUrl endpointPath = baseUrl @ endpointPath"

definition normalizeVisualNovelIdentifier :: "string \<Rightarrow> string" where
  "normalizeVisualNovelIdentifier visualNovelIdentifier =
     (let normalizedRawIdentifier = toLowerCase (trim visualNovelIdentifier)
      in if startsWith normalizedRawIdentifier ''v''
         then normalizedRawIdentifier
         else ''v'' @ normalizedRawIdentifier)"

definition normalizeUserIdentifier :: "string \<Rightarrow> string" where
  "normalizeUserIdentifier userIdentifier =
     (if startsWith (toLowerCase userIdentifier) ''u''
      then toLowerCase userIdentifier
      else ''u'' @ userIdentifier)"

definition authorizationHeader :: "string \<Rightarrow> string" where
  "authorizationHeader authenticationToken = ''Token '' @ authenticationToken"

subsection \<open>Personal-list writes\<close>

text \<open>
  Each write takes the personal-list read cache \<open>userListQueryCache\<close> and returns the
  requests issued, the cache it leaves and its result (\<open>Inl\<close> the thrown error).
\<close>

definition patchRequest :: "string \<Rightarrow> string \<Rightarrow> request_body \<Rightarrow> http_request" where
  "patchRequest targetApiEndpoint authenticationToken requestPayload =
     \<lparr>reqUrl = targetApiEndpoint, reqMethod = PATCH,
      reqAuthorization = Some (authorizationHeader authenticationToken),
      reqBody = requestPayload\<rparr>"

definition addFailure :: "nat \<Rightarrow> string \<Rightarrow> client_error" where
  "addFailure st responseBodyText = AddFailed st (trim responseBodyText)"

definition addVisualNovelToAuthenticatedUserList ::
  "(http_request \<Rightarrow> string fetch_outcome) \<Rightarrow> string \<Rightarrow> 'p cache_store \<Rightarrow> string \<Rightarrow> string \<Rightarrow> int
     \<Rightarrow> http_request list \<times> 'p cache_store \<times> (client_error + unit)" where
  "addVisualNovelToAuthenticatedUserList remote baseUrl userListQueryCache authenticationToken
       visualNovelIdentifier labelIdentifier =
     (if trim visualNovelIdentifier = []
      then ([], userListQueryCache, Inl AddMissingIdentifier)
      else
        let targetApiEndpoint =
              buildVndbApiUrl baseUrl (''/ulist/'' @ normalizeVisualNovelIdentifier visualNovelIdentifier);
            firstRequest = patchRequest targetApiEndpoint authenticationToken (LabelsSetBody [labelIdentifier]);
            fallbackRequest = patchRequest targetApiEndpoint authenticationToken (LabelsBody [labelIdentifier])
        in case remote firstRequest of
             FetchRejected message \<Rightarrow>
               ([firstRequest], userListQueryCache, Inl (AddFailedBeforeReaching message))
           | FetchResponse st responseBody \<Rightarrow>
               if \<not> ok st \<and> st = 400
               then (case remote fallbackRequest of
                       FetchRejected message \<Rightarrow>
                         ([firstRequest, fallbackRequest], userListQueryCache,
                          Inl (AddFailedBeforeReaching message))
                     | FetchResponse st2 responseBody2 \<Rightarrow>
                         if \<not> ok st2
                         then ([firstRequest, fallbackRequest], userListQueryCache,
                               Inl (addFailure st2 responseBody2))
                         else ([firstRequest, fallbackRequest], Map.empty, Inr ()))
               else if \<not> ok st
               then ([firstRequest], userListQueryCache, Inl (addFailure st responseBody))
               else ([firstRequest], Map.empty, Inr ()))"

definition STATUS_LABEL_IDENTIFIERS :: "int list" where
  "STATUS_LABEL_IDENTIFIERS = [1, 2, 3, 4, 5, 6]"

definition updateAuthenticatedUserVisualNovelStatusLabel ::
  "(http_request \<Rightarrow> 'b fetch_outcome) \<Rightarrow> string \<Rightarrow> 'p cache_store \<Rightarrow> string \<Rightarrow> string \<Rightarrow> int
     \<Rightarrow> http_request list \<times> 'p cache_store \<times> (client_error + unit)" where
  "updateAuthenticatedUserVisualNovelStatusLabel remote baseUrl userListQueryCache authenticationToken
       visualNovelIdentifier statusLabelIdentifier =
     (let targetApiEndpoint =
            buildVndbApiUrl baseUrl (''/ulist/'' @ normalizeVisualNovelIdentifier visualNovelIdentifier);
          requestPayload =
            StatusBody
              (filter (\<lambda>labelIdentifier. labelIdentifier \<noteq> statusLabelIdentifier) STATUS_LABEL_IDENTIFIERS)
              [statusLabelIdentifier];
          request = patchRequest targetApiEndpoint authenticationToken requestPayload
      in case remote request of
           FetchRejected message \<Rightarrow> ([request], userListQueryCache, Inl (TransportError message))
         | FetchResponse st responseBody \<Rightarrow>
             if \<not> ok st
             then ([request], userListQueryCache, Inl (UpdateStatusFailed st))
             else ([request], Map.empty, Inr ()))"

definition removeVisualNovelFromAuthenticatedUserList ::
  "(http_request \<Rightarrow> 'b fetch_outcome) \<Rightarrow> string \<Rightarrow> 'p cache_store \<Rightarrow> string \<Rightarrow> string
     \<Rightarrow> http_request list \<times> 'p cache_store \<times> (client_error + unit)" where
  "removeVisualNovelFromAuthenticatedUserList remote baseUrl userListQueryCache authenticationToken
       visualNovelIdentifier =
     (let targetApiEndpoint =
            buildVndbApiUrl baseUrl (''/ulist/'' @ normalizeVisualNovelIdentifier visualNovelIdentifier);
          request = \<lparr>reqUrl = targetApiEndpoint, reqMethod = DELETE,
                     reqAuthorization = Some (authorizationHeader authenticationToken),
                     reqBody = NoBody\<rparr>
      in case remote request of
           FetchRejected message \<Rightarrow> ([request], userListQueryCache, Inl (TransportError message))
         | FetchResponse st responseBody \<Rightarrow>
             if \<not> ok st
             then ([request], userListQueryCache, Inl (RemoveFailed st))
             else ([request], Map.empty, Inr ()))"

subsection \<open>Personal-list page read\<close>



definition ulistRequest :: "string \<Rightarrow> string \<Rightarrow> request_body \<Rightarrow> http_request" where
  "ulistRequest targetApiEndpoint authenticationToken requestPayload =
     \<lparr>reqUrl = targetApiEndpoint, reqMethod = POST,
      reqAuthorization = Some (authorizationHeader authenticationToken),
      reqBody = requestPayload\<rparr>"


subsection \<open>Membership-set fetch\<close>

text \<open>
  \<open>String(n)\<close> of an integer number is its decimal numeral (for magnitudes below 1e21).
  An entry's \<open>id\<close> is a string, a finite number, or absent (anything else). The loop of
  \<open>fetchAuthenticatedUserVisualNovelIdentifierSet\<close> carries \<open>hasMorePages\<close>,
  \<open>activePageNumber\<close>, the set built so far and the requests issued so far.
\<close>

definition digitChar :: "nat \<Rightarrow> char" where
  "digitChar n = ''0123456789'' ! n"

fun showNat :: "nat \<Rightarrow> string" where
  "showNat n = (if n < 10 then [digitChar n] else showNat (n div 10) @ [digitChar (n mod 10)])"

declare showNat.simps [simp del]

definition showInt :: "int \<Rightarrow> string" where
  "showInt i = (if i < 0 then ''-'' @ showNat (nat (- i)) else showNat (nat i))"

datatype raw_identifier = IdString string | IdNumber int | IdAbsent

record identifier_page =
  pageResults :: "raw_identifier list option"
  pageMore :: "bool option"

definition truthy :: "bool option \<Rightarrow> bool" where
  "truthy b = (b = Some True)"

definition MAXIMUM_USER_LIST_PAGES :: nat where
  "MAXIMUM_USER_LIST_PAGES = 40"

definition identifierPageRequest :: "string \<Rightarrow> string \<Rightarrow> string \<Rightarrow> nat \<Rightarrow> http_request" where
  "identifierPageRequest baseUrl authenticationToken userIdentifier activePageNumber =
     ulistRequest (buildVndbApiUrl baseUrl ''/ulist'') authenticationToken
       (UlistBody (normalizeUserIdentifier userIdentifier) ''id'' 100 activePageNumber)"

definition addRawIdentifier :: "raw_identifier \<Rightarrow> string set \<Rightarrow> string set" where
  "addRawIdentifier rawIdentifier visualNovelIdentifierSet =
     (case rawIdentifier of
        IdString s \<Rightarrow>
          if trim s \<noteq> []
          then insert (if startsWith (toLowerCase s) ''v'' then toLowerCase s else ''v'' @ toLowerCase s)
                 visualNovelIdentifierSet
          else visualNovelIdentifierSet
      | IdNumber n \<Rightarrow> insert (''v'' @ showInt n) visualNovelIdentifierSet
      | IdAbsent \<Rightarrow> visualNovelIdentifierSet)"

function identifierSetLoop ::
  "(http_request \<Rightarrow> identifier_page fetch_outcome) \<Rightarrow> string \<Rightarrow> string \<Rightarrow> string
     \<Rightarrow> bool \<Rightarrow> nat \<Rightarrow> string set \<Rightarrow> http_request list
     \<Rightarrow> http_request list \<times> (client_error + string set)" where
  "identifierSetLoop remote baseUrl authenticationToken userIdentifier
       hasMorePages activePageNumber visualNovelIdentifierSet issued =
     (if hasMorePages \<and> activePageNumber \<le> MAXIMUM_USER_LIST_PAGES
      then
        let request = identifierPageRequest baseUrl authenticationToken userIdentifier activePageNumber
        in case remote request of
             FetchRejected message \<Rightarrow> (issued @ [request], Inl (TransportError message))
           | FetchResponse st responsePayload \<Rightarrow>
               if \<not> ok st
               then (issued @ [request], Inl (IdentifierSetFailed st))
               else
                 let rawEntries = (case pageResults responsePayload of None \<Rightarrow> [] | Some entries \<Rightarrow> entries)
                 in identifierSetLoop remote baseUrl authenticationToken userIdentifier
                      (truthy (pageMore responsePayload)) (activePageNumber + 1)
                      (fold addRawIdentifier rawEntries visualNovelIdentifierSet)
                      (issued @ [request])
      else (issued, Inr visualNovelIdentifierSet))"
  by pat_completeness auto
termination
  by (relation "measure (\<lambda>(remote, baseUrl, token, user, hasMore, page, idSet, issued). 41 - page)")
     (auto simp: MAXIMUM_USER_LIST_PAGES_def)

declare identifierSetLoop.simps [simp del]

definition fetchAuthenticatedUserVisualNovelIdentifierSet ::
  "(http_request \<Rightarrow> identifier_page fetch_outcome) \<Rightarrow> string \<Rightarrow> string \<Rightarrow> string
     \<Rightarrow> http_request list \<times> (client_error + string set)" where
  "fetchAuthenticatedUserVisualNovelIdentifierSet remote baseUrl authenticationToken userIdentifier =
     identifierSetLoop remote baseUrl authenticationToken userIdentifier True 1 {} []"

text \<open>A page request answered with success and the given value of \<open>Boolean(more)\<close>.\<close>

definition pageAnswered :: "(http_request \<Rightarrow> identifier_page fetch_outcome) \<Rightarrow> http_request \<Rightarrow> bool \<Rightarrow> bool" where
  "pageAnswered remote request moreFlag =
     (case remote request of
        FetchRejected message \<Rightarrow> False
      | FetchResponse st pl \<Rightarrow> ok st \<and> truthy (pageMore pl) = moreFlag)"

text \<open>The outcome of a write, as a property of the cache it leaves.\<close>

definition respondedOk :: "(http_request \<Rightarrow> 'b fetch_outcome) \<Rightarrow> http_request \<Rightarrow> bool" where
  "respondedOk remote request =
     (case remote request of FetchRejected message \<Rightarrow> False | FetchResponse st responseBody \<Rightarrow> ok st)"

definition clearsOnlyOnSuccess ::
  "(http_request \<Rightarrow> 'b fetch_outcome) \<Rightarrow> 'p cache_store
     \<Rightarrow> http_request list \<times> 'p cache_store \<times> (client_error + unit) \<Rightarrow> bool" where
  "clearsOnlyOnSuccess remote cacheBefore outcome =
     (case outcome of
        (issued, cacheAfter, Inl thrown) \<Rightarrow> cacheAfter = cacheBefore
      | (issued, cacheAfter, Inr done) \<Rightarrow>
          cacheAfter = Map.empty \<and> issued \<noteq> [] \<and> respondedOk remote (last issued))"

section \<open>The list view (components/VisualNovelList.tsx)\<close>

subsection \<open>Query descriptors and the filter expression\<close>

text \<open>
  A VNDB filter is a JSON array: \<open>[name, op, value]\<close> for a comparison, whose value is a
  string, a boolean or a nested filter, and \<open>["and", ...]\<close> / \<open>["or", ...]\<close> for the
  connectives. The descriptor's \<open>term\<close> and \<open>sort\<close> are the fields \<open>queryTerm\<close>
  and \<open>querySort\<close> here; an optional identifier is \<open>None\<close> when undefined.
\<close>

datatype filter_operand = StringOperand string | BoolOperand bool | FilterOperand vndb_filter
  and vndb_filter = Comparison string string filter_operand | AndNode "vndb_filter list" | OrNode "vndb_filter list"

datatype query_kind = TextKind | TagKind | DeveloperKind

datatype sort_field = SortDefault | SortTitle | SortReleased | SortRating | SortVotecount | SortId

datatype sort_direction = Asc | Desc

record ListFilterState =
  languages :: "string list"
  originalLanguage :: string
  onlyWithScreenshots :: bool
  onlyWithDescription :: bool

record ListSortState =
  field :: sort_field
  direction :: sort_direction

record ListQueryDescriptor =
  kind :: query_kind
  queryTerm :: string
  tagIdentifier :: "string option"
  developerIdentifier :: "string option"
  filters :: ListFilterState
  querySort :: ListSortState

definition isTruthyString :: "string option \<Rightarrow> bool" where
  "isTruthyString s = (case s of None \<Rightarrow> False | Some v \<Rightarrow> v \<noteq> [])"

definition stringOrEmpty :: "string option \<Rightarrow> string" where
  "stringOrEmpty s = (case s of None \<Rightarrow> [] | Some v \<Rightarrow> v)"

definition primaryClause :: "ListQueryDescriptor \<Rightarrow> vndb_filter" where
  "primaryClause queryDescriptor =
     (if kind queryDescriptor = TagKind \<and> isTruthyString (tagIdentifier queryDescriptor)
      then Comparison ''tag'' ''='' (StringOperand (stringOrEmpty (tagIdentifier queryDescriptor)))
      else if kind queryDescriptor = DeveloperKind \<and> isTruthyString (developerIdentifier queryDescriptor)
      then Comparison ''developer'' ''=''
             (FilterOperand (Comparison ''id'' ''=''
                (StringOperand (stringOrEmpty (developerIdentifier queryDescriptor)))))
      else if trim (queryTerm queryDescriptor) \<noteq> []
      then Comparison ''search'' ''='' (StringOperand (queryTerm queryDescriptor))
      else Comparison ''id'' ''>='' (StringOperand ''v1''))"

definition languageClauses :: "ListFilterState \<Rightarrow> vndb_filter list" where
  "languageClauses filterState =
     (if length (languages filterState) = 1
      then [Comparison ''lang'' ''='' (StringOperand (languages filterState ! 0))]
      else if length (languages filterState) > 1
      then [OrNode (map (\<lambda>languageCode. Comparison ''lang'' ''='' (StringOperand languageCode))
                      (languages filterState))]
      else [])"

definition filterClauses :: "ListQueryDescriptor \<Rightarrow> vndb_filter list" where
  "filterClauses queryDescriptor =
     [primaryClause queryDescriptor]
     @ languageClauses (filters queryDescriptor)
     @ (if trim (originalLanguage (filters queryDescriptor)) \<noteq> []
        then [Comparison ''olang'' ''='' (StringOperand (originalLanguage (filters queryDescriptor)))]
        else [])
     @ (if onlyWithScreenshots (filters queryDescriptor)
        then [Comparison ''has_screenshot'' ''='' (BoolOperand True)]
        else [])
     @ (if onlyWithDescription (filters queryDescriptor)
        then [Comparison ''has_description'' ''='' (BoolOperand True)]
        else [])"



subsection \<open>View state and the search fetch\<close>

text \<open>
  A catalogue row (\<open>VisualNovelDatabaseEntry\<close>) has the fields \<open>id\<close>, \<open>title\<close>,
  \<open>rating\<close> and \<open>image\<close>, here \<open>entryId\<close>, \<open>title\<close>, \<open>rating\<close> and
  \<open>coverImage\<close>; the cover image is left as a type parameter. A response of \<open>POST /vn\<close>
  has \<open>results\<close> and \<open>more\<close> (here \<open>moreResults\<close>).
\<close>

record 'i VisualNovelDatabaseEntry =
  entryId :: string
  title :: string
  rating :: "rat option"
  coverImage :: "'i option"

record 'i VisualNovelQueryResponse =
  results :: "'i VisualNovelDatabaseEntry list"
  moreResults :: bool


text \<open>An awaited promise settles: it is fulfilled with a value or rejected with an error message.\<close>

datatype 'a settled = Fulfilled 'a | Rejected string

text \<open>The React state of the component that the modelled functions read and set.\<close>

record 'i list_view_state =
  visualNovelDatabaseEntries :: "'i VisualNovelDatabaseEntry list"
  isDataLoading :: bool
  isLoadingAdditionalPage :: bool
  networkErrorMessage :: "string option"
  activeQueryDescriptor :: ListQueryDescriptor
  isViewingUserList :: bool
  currentResultPage :: nat
  hasAdditionalResults :: bool
  userListIdentifierSet :: "string set"
  userListStatusByIdentifier :: "string \<rightharpoonup> int"




text \<open>
  \<open>executeDataFetchOperation\<close> is an async function with one \<open>await\<close>. Its part before
  the \<open>await\<close> is \<open>executeDataFetchOperation_begin\<close>; it then awaits
  \<open>fetchVisualNovelEntries (queryConfiguration queryDescriptor pageNumber)\<close>; its part after
  the \<open>await\<close> (the rest of the \<open>try\<close>, the \<open>catch\<close> and the \<open>finally\<close>) is
  \<open>executeDataFetchOperation_settle\<close>, which runs on the state as it is when the promise
  settles. The entries are set with a functional update, so they read that state too.
\<close>

definition executeDataFetchOperation_begin :: "bool \<Rightarrow> 'i list_view_state \<Rightarrow> 'i list_view_state" where
  "executeDataFetchOperation_begin shouldAppendResults s =
     (if shouldAppendResults
      then s\<lparr>isLoadingAdditionalPage := True, networkErrorMessage := None\<rparr>
      else s\<lparr>isDataLoading := True, networkErrorMessage := None\<rparr>)"

definition executeDataFetchOperation_finally :: "bool \<Rightarrow> 'i list_view_state \<Rightarrow> 'i list_view_state" where
  "executeDataFetchOperation_finally shouldAppendResults s =
     (if shouldAppendResults
      then s\<lparr>isLoadingAdditionalPage := False\<rparr>
      else s\<lparr>isDataLoading := False\<rparr>)"

definition executeDataFetchOperation_settle ::
  "ListQueryDescriptor \<Rightarrow> nat \<Rightarrow> bool \<Rightarrow> 'i VisualNovelQueryResponse settled
     \<Rightarrow> 'i list_view_state \<Rightarrow> 'i list_view_state" where
  "executeDataFetchOperation_settle queryDescriptor page shouldAppendResults outcome s =
     executeDataFetchOperation_finally shouldAppendResults
       (case outcome of
          Fulfilled responsePayload \<Rightarrow>
            s\<lparr>visualNovelDatabaseEntries :=
                 (if shouldAppendResults
                  then visualNovelDatabaseEntries s @ results responsePayload
                  else results responsePayload),
              currentResultPage := page,
              hasAdditionalResults := moreResults responsePayload,
              activeQueryDescriptor := queryDescriptor\<rparr>
        | Rejected message \<Rightarrow> s\<lparr>networkErrorMessage := Some message\<rparr>)"




subsection \<open>The membership-set effect\<close>

text \<open>
  The effect that loads the membership set declares \<open>hasLifecycleBeenCancelled\<close> for each
  of its runs; the cleanup function React calls before the next run (or on unmount) sets it.
  \<open>executeUserListIdentifierFetch\<close> is again split at its \<open>await\<close>: the first part
  tells whether a fetch is awaited, the second receives the flag as it is when the promise
  settles.
\<close>

definition executeUserListIdentifierFetch_begin ::
  "bool \<Rightarrow> 'i list_view_state \<Rightarrow> 'i list_view_state \<times> bool" where
  "executeUserListIdentifierFetch_begin sessionCanReadList s =
     (if \<not> sessionCanReadList
      then (s\<lparr>userListIdentifierSet := {}\<rparr>, False)
      else (s, True))"

definition executeUserListIdentifierFetch_settle ::
  "bool \<Rightarrow> string set settled \<Rightarrow> 'i list_view_state \<Rightarrow> 'i list_view_state" where
  "executeUserListIdentifierFetch_settle hasLifecycleBeenCancelled outcome s =
     (case outcome of
        Fulfilled visualNovelIdentifierSet \<Rightarrow>
          if \<not> hasLifecycleBeenCancelled
          then s\<lparr>userListIdentifierSet := visualNovelIdentifierSet\<rparr>
          else s
      | Rejected message \<Rightarrow>
          if \<not> hasLifecycleBeenCancelled
          then s\<lparr>userListIdentifierSet := {}\<rparr>
          else s)"

subsection \<open>Status labels of a personal-list entry\<close>

text \<open>
  A raw label is a number, a string, an object with an \<open>id\<close>, or anything else. Numbers
  that reach the comparison with the status identifiers are integers here (a fraction or NaN
  is no status identifier). \<open>Number\<close> of a string of digits is its decimal value, 0 for the
  empty string, and \<open>Infinity\<close> from \<open>2^1024 - 2^970\<close> on, which \<open>Number.isFinite\<close>
  rejects; below that the exact value stands for the double nearest to it, which is the
  same number whenever it is below \<open>2^53\<close>.
\<close>

datatype raw_label_id = LabelIdNumber int | LabelIdString string | LabelIdOther

datatype raw_label = LabelNumber int | LabelString string | LabelObject raw_label_id | LabelOther

definition isDigit :: "char \<Rightarrow> bool" where
  "isDigit c = (c \<in> set ''0123456789'')"

definition digitValue :: "char \<Rightarrow> int" where
  "digitValue c =
     (case map_of (zip ''0123456789'' [0, 1, 2, 3, 4, 5, 6, 7, 8, 9]) c of
        None \<Rightarrow> 0
      | Some d \<Rightarrow> d)"

definition numberOfDigits :: "string \<Rightarrow> int" where
  "numberOfDigits s = foldl (\<lambda>total c. 10 * total + digitValue c) 0 (filter isDigit s)"

definition finiteDigitsNumber :: "string \<Rightarrow> int option" where
  "finiteDigitsNumber s =
     (if numberOfDigits s < 2 ^ 1024 - 2 ^ 970 then Some (numberOfDigits s) else None)"

definition normalizeLabel :: "raw_label \<Rightarrow> int option" where
  "normalizeLabel rawLabel =
     (case rawLabel of
        LabelNumber n \<Rightarrow> Some n
      | LabelString s \<Rightarrow> finiteDigitsNumber s
      | LabelObject labelIdentifierCandidate \<Rightarrow>
          (case labelIdentifierCandidate of
             LabelIdNumber n \<Rightarrow> Some n
           | LabelIdString s \<Rightarrow> finiteDigitsNumber s
           | LabelIdOther \<Rightarrow> None)
      | LabelOther \<Rightarrow> None)"

definition normalizedLabelsOf :: "raw_label list \<Rightarrow> int list" where
  "normalizedLabelsOf rawLabels = List.map_filter normalizeLabel rawLabels"

definition deriveStatusLabelFromUnknownLabels :: "raw_label list option \<Rightarrow> int option" where
  "deriveStatusLabelFromUnknownLabels rawLabels =
     (case rawLabels of
        None \<Rightarrow> None
      | Some labelArray \<Rightarrow>
          find (\<lambda>statusLabelIdentifier. statusLabelIdentifier \<in> set (normalizedLabelsOf labelArray))
            STATUS_LABEL_IDENTIFIERS)"

subsection \<open>Identifiers in the list view\<close>

text \<open>
  The component's own \<open>normalizeVisualNovelIdentifier\<close> takes an unknown value; it is
  \<open>normalizeVisualNovelIdentifierUnknown\<close> here, the client's function of that name being
  defined above.
\<close>

definition normalizeEntryIdentifier :: "raw_identifier \<Rightarrow> string option" where
  "normalizeEntryIdentifier rawIdentifier =
     (case rawIdentifier of
        IdString s \<Rightarrow> if trim s \<noteq> [] then Some (trim s) else None
      | IdNumber n \<Rightarrow> Some (showInt n)
      | IdAbsent \<Rightarrow> None)"

definition normalizeVisualNovelIdentifierUnknown :: "raw_identifier \<Rightarrow> string option" where
  "normalizeVisualNovelIdentifierUnknown rawIdentifier =
     (case normalizeEntryIdentifier rawIdentifier of
        None \<Rightarrow> None
      | Some normalizedIdentifier \<Rightarrow>
          Some (if startsWith (toLowerCase normalizedIdentifier) ''v''
                then toLowerCase normalizedIdentifier
                else ''v'' @ toLowerCase normalizedIdentifier))"

text \<open>
  An entry of a \<open>POST /ulist\<close> response: its \<open>id\<close>, its \<open>vn\<close> (an embedded object
  with an \<open>id\<close> and the title, rating and image asked for, or a bare value) and its
  \<open>labels\<close> (\<open>None\<close> when not an array).
\<close>

datatype 'i raw_vn_payload =
    VnObject raw_identifier string "rat option" "'i option"
  | VnScalar raw_identifier

record 'i raw_user_list_entry =
  rawId :: raw_identifier
  rawVn :: "'i raw_vn_payload"
  rawLabels :: "raw_label list option"

definition recordUserListStatus ::
  "'i raw_user_list_entry \<Rightarrow> (string \<rightharpoonup> int) \<Rightarrow> (string \<rightharpoonup> int)" where
  "recordUserListStatus userListEntry normalizedUserListStatuses =
     (let identifierFromVn =
            (case rawVn userListEntry of
               VnObject vnIdentifier vnTitle vnRating vnImage \<Rightarrow>
                 normalizeVisualNovelIdentifierUnknown vnIdentifier
             | VnScalar bareValue \<Rightarrow> None);
          identifierFromEntry = normalizeVisualNovelIdentifierUnknown (rawId userListEntry);
          normalizedVisualNovelIdentifier =
            (case identifierFromVn of None \<Rightarrow> identifierFromEntry | Some v \<Rightarrow> Some v);
          normalizedStatusLabel = deriveStatusLabelFromUnknownLabels (rawLabels userListEntry)
      in case normalizedVisualNovelIdentifier of
           None \<Rightarrow> normalizedUserListStatuses
         | Some visualNovelIdentifier \<Rightarrow>
             (case normalizedStatusLabel of
                None \<Rightarrow> normalizedUserListStatuses
              | Some statusLabel \<Rightarrow>
                  if visualNovelIdentifier \<noteq> []
                  then normalizedUserListStatuses(visualNovelIdentifier \<mapsto> statusLabel)
                  else normalizedUserListStatuses))"

definition normalizedUserListStatusesOf :: "'i raw_user_list_entry list \<Rightarrow> (string \<rightharpoonup> int)" where
  "normalizedUserListStatusesOf accumulatedUserListEntries =
     fold recordUserListStatus accumulatedUserListEntries Map.empty"

definition listItemIdentifierKey :: "string \<Rightarrow> string" where
  "listItemIdentifierKey identifier =
     (if startsWith (toLowerCase identifier) ''v''
      then toLowerCase identifier
      else ''v'' @ toLowerCase identifier)"

definition initialStatusLabelIdentifier :: "(string \<rightharpoonup> int) \<Rightarrow> string \<Rightarrow> int" where
  "initialStatusLabelIdentifier statusByIdentifier identifier =
     (case statusByIdentifier (listItemIdentifierKey identifier) of
        None \<Rightarrow> 5
      | Some statusLabel \<Rightarrow> statusLabel)"

subsection \<open>The personal-list view: normalisation, hydration, client-side sort\<close>

definition placeholderEntry :: "string \<Rightarrow> 'i VisualNovelDatabaseEntry" where
  "placeholderEntry identifier = \<lparr>entryId = identifier, title = [], rating = None, coverImage = None\<rparr>"

definition normalizeUserListEntry :: "'i raw_user_list_entry \<Rightarrow> 'i VisualNovelDatabaseEntry option" where
  "normalizeUserListEntry userListEntry =
     (let normalizedIdentifierFromEntry = normalizeEntryIdentifier (rawId userListEntry)
      in case rawVn userListEntry of
           VnObject vnIdentifier vnTitle vnRating vnImage \<Rightarrow>
             (case (case normalizeEntryIdentifier vnIdentifier of
                      None \<Rightarrow> normalizedIdentifierFromEntry
                    | Some v \<Rightarrow> Some v) of
                None \<Rightarrow> None
              | Some normalizedIdentifier \<Rightarrow>
                  Some \<lparr>entryId = normalizedIdentifier, title = vnTitle, rating = vnRating,
                        coverImage = vnImage\<rparr>)
         | VnScalar bareValue \<Rightarrow>
             (case normalizeEntryIdentifier bareValue of
                Some normalizedIdentifierFromVn \<Rightarrow> Some (placeholderEntry normalizedIdentifierFromVn)
              | None \<Rightarrow>
                  (case normalizedIdentifierFromEntry of
                     None \<Rightarrow> None
                   | Some entryIdentifier \<Rightarrow>
                       if startsWith (toLowerCase entryIdentifier) ''v''
                       then Some (placeholderEntry entryIdentifier)
                       else None)))"

definition normalizedVisualNovelEntriesOf ::
  "'i raw_user_list_entry list \<Rightarrow> 'i VisualNovelDatabaseEntry list" where
  "normalizedVisualNovelEntriesOf accumulatedUserListEntries =
     List.map_filter normalizeUserListEntry accumulatedUserListEntries"

definition isPlaceholder :: "'i VisualNovelDatabaseEntry \<Rightarrow> bool" where
  "isPlaceholder userListEntry = (trim (title userListEntry) = [])"





















section \<open>Description markup (renderVndbDescription)\<close>

text \<open>
  The rendered React nodes: text, \<open><br>\<close>, \<open><strong>\<close>, \<open><em>\<close>, \<open><u>\<close>,
  \<open><span>\<close> and \<open><a href=...>\<close>; React keys are left out. \<open>new URL(s)\<close> is the
  parameter \<open>parseUrl\<close>: \<open>None\<close> when it throws, else the \<open>protocol\<close> of the parsed
  URL and its serialisation (\<open>toString()\<close>).
\<close>

datatype react_node =
    TextNode string
  | LineBreak
  | Strong "react_node list"
  | Emphasis "react_node list"
  | Underline "react_node list"
  | Span "react_node list"
  | Anchor string "react_node list"

datatype tag_name = TagB | TagI | TagU | TagUrl | TagRoot

record ParsedTagNode =
  tag :: tag_name
  url :: "string option"
  children :: "react_node list"

record parsed_url =
  protocol :: string
  serialized :: string

definition tagText :: "tag_name \<Rightarrow> string" where
  "tagText t = (case t of TagB \<Rightarrow> ''b'' | TagI \<Rightarrow> ''i'' | TagU \<Rightarrow> ''u'' | TagUrl \<Rightarrow> ''url'' | TagRoot \<Rightarrow> ''root'')"

definition plainTextOf :: "react_node \<Rightarrow> string" where
  "plainTextOf node = (case node of TextNode s \<Rightarrow> s | _ \<Rightarrow> [])"

definition extractPlainText :: "react_node list \<Rightarrow> string" where
  "extractPlainText nodes = trim (concat (map plainTextOf nodes))"

definition isAsciiLetter :: "char \<Rightarrow> bool" where
  "isAsciiLetter c = (c \<in> set ''abcdefghijklmnopqrstuvwxyzABCDEFGHIJKLMNOPQRSTUVWXYZ'')"

definition isSchemeChar :: "char \<Rightarrow> bool" where
  "isSchemeChar c = (isAsciiLetter c \<or> isDigit c \<or> c \<in> set ''+-.'')"

text \<open>The test \<open>/^[a-zA-Z][a-zA-Z\d+\-.]*:/\<close>.\<close>

fun schemeRest :: "string \<Rightarrow> bool" where
  "schemeRest [] = False"
| "schemeRest (c # cs) = (if c = CHR '':'' then True else if isSchemeChar c then schemeRest cs else False)"

definition hasScheme :: "string \<Rightarrow> bool" where
  "hasScheme s = (case s of [] \<Rightarrow> False | c # cs \<Rightarrow> isAsciiLetter c \<and> schemeRest cs)"

definition allowedProtocol :: "string \<Rightarrow> bool" where
  "allowedProtocol p = (p = ''http:'' \<or> p = ''https:'' \<or> p = ''mailto:'')"

definition withProtocol :: "string \<Rightarrow> string" where
  "withProtocol trimmedUrl = (if hasScheme trimmedUrl then trimmedUrl else ''https://'' @ trimmedUrl)"

definition normalizeUrl :: "(string \<Rightarrow> parsed_url option) \<Rightarrow> string \<Rightarrow> string option" where
  "normalizeUrl parseUrl rawUrl =
     (let trimmedUrl = trim rawUrl
      in if length trimmedUrl = 0 then None
         else
           case parseUrl (withProtocol trimmedUrl) of
             None \<Rightarrow> None
           | Some parsedUrl \<Rightarrow>
               if allowedProtocol (protocol parsedUrl) then Some (serialized parsedUrl) else None)"

definition linkSource :: "ParsedTagNode \<Rightarrow> string" where
  "linkSource node = (case url node of None \<Rightarrow> extractPlainText (children node) | Some u \<Rightarrow> u)"

definition renderTagNode :: "(string \<Rightarrow> parsed_url option) \<Rightarrow> ParsedTagNode \<Rightarrow> react_node" where
  "renderTagNode parseUrl node =
     (if tag node = TagB then Strong (children node)
      else if tag node = TagI then Emphasis (children node)
      else if tag node = TagU then Underline (children node)
      else
        let resolvedUrl = normalizeUrl parseUrl (linkSource node)
        in case resolvedUrl of
             None \<Rightarrow> Span (children node)
           | Some link \<Rightarrow> if link = [] then Span (children node) else Anchor link (children node))"

subsection \<open>Tokens\<close>

text \<open>
  \<open>SUPPORTED_TOKEN_PATTERN\<close> is
  \<open>/\[(\/?(?:b|i|u|url)(?:=[^\]]+)?)\]|\[br\]/gi\<close>. A match at a position is a tag token,
  with its body (capture group 1) and its text, or a \<open>[br]\<close> token. \<open>matchAll\<close> yields
  the leftmost matches that do not overlap; the text between them is kept as it is.
\<close>

datatype token = TagToken string string | BrToken string

definition tokenText :: "token \<Rightarrow> string" where
  "tokenText t = (case t of TagToken tokenBodyRaw matched \<Rightarrow> matched | BrToken matched \<Rightarrow> matched)"

definition matchArgument :: "string \<Rightarrow> string option" where
  "matchArgument s =
     (case s of
        [] \<Rightarrow> None
      | c # cs \<Rightarrow>
          if c = CHR '']'' then Some []
          else if c = CHR ''=''
          then (let argument = takeWhile (\<lambda>x. x \<noteq> CHR '']'') cs
                in if argument \<noteq> [] \<and> dropWhile (\<lambda>x. x \<noteq> CHR '']'') cs \<noteq> []
                   then Some (CHR ''='' # argument)
                   else None)
          else None)"

definition matchNamed :: "string \<Rightarrow> string \<Rightarrow> string option" where
  "matchNamed name s =
     (if toLowerCase (take (length name) s) = name
      then (case matchArgument (drop (length name) s) of
              None \<Rightarrow> None
            | Some argument \<Rightarrow> Some (take (length name) s @ argument))
      else None)"

definition firstMatch :: "string list \<Rightarrow> string \<Rightarrow> string option" where
  "firstMatch names s =
     (case List.map_filter (\<lambda>name. matchNamed name s) names of [] \<Rightarrow> None | body # others \<Rightarrow> Some body)"

definition matchTagBody :: "string \<Rightarrow> string option" where
  "matchTagBody s =
     (case s of
        [] \<Rightarrow> None
      | c # cs \<Rightarrow>
          if c = CHR ''/''
          then (case firstMatch [''b'', ''i'', ''u'', ''url''] cs of
                  None \<Rightarrow> None
                | Some body \<Rightarrow> Some (CHR ''/'' # body))
          else firstMatch [''b'', ''i'', ''u'', ''url''] (c # cs))"

definition matchToken :: "string \<Rightarrow> token option" where
  "matchToken s =
     (case s of
        [] \<Rightarrow> None
      | c # cs \<Rightarrow>
          if c = CHR ''[''
          then (case matchTagBody cs of
                  Some tokenBodyRaw \<Rightarrow> Some (TagToken tokenBodyRaw (CHR ''['' # tokenBodyRaw @ '']''))
                | None \<Rightarrow>
                    if toLowerCase (take 3 cs) = ''br]''
                    then Some (BrToken (CHR ''['' # take 3 cs))
                    else None)
          else None)"

datatype segment = TextSegment string | TokenSegment token

definition flushText :: "string \<Rightarrow> segment list" where
  "flushText pending = (if pending = [] then [] else [TextSegment pending])"

fun scanTokens :: "string \<Rightarrow> string \<Rightarrow> nat \<Rightarrow> segment list" where
  "scanTokens [] pending skip = flushText pending"
| "scanTokens (c # cs) pending (Suc skip) = scanTokens cs pending skip"
| "scanTokens (c # cs) pending 0 =
     (case matchToken (c # cs) of
        None \<Rightarrow> scanTokens cs (pending @ [c]) 0
      | Some matchedToken \<Rightarrow>
          flushText pending @ [TokenSegment matchedToken]
          @ scanTokens cs [] (length (tokenText matchedToken) - 1))"

subsection \<open>The parse stack\<close>

text \<open>The stack is never empty; its head is the innermost open tag, its last element the root.\<close>

definition pushChild :: "react_node \<Rightarrow> ParsedTagNode list \<Rightarrow> ParsedTagNode list" where
  "pushChild child parseStack =
     (case parseStack of
        [] \<Rightarrow> []
      | parentNode # outer \<Rightarrow> parentNode\<lparr>children := children parentNode @ [child]\<rparr> # outer)"

definition openingTag :: "string \<Rightarrow> tag_name option" where
  "openingTag openingTagName =
     (if openingTagName = ''b'' then Some TagB
      else if openingTagName = ''i'' then Some TagI
      else if openingTagName = ''u'' then Some TagU
      else if openingTagName = ''url'' then Some TagUrl
      else None)"

definition processTagToken ::
  "(string \<Rightarrow> parsed_url option) \<Rightarrow> string \<Rightarrow> string \<Rightarrow> ParsedTagNode list \<Rightarrow> ParsedTagNode list" where
  "processTagToken parseUrl tokenBodyRaw matched parseStack =
     (let tokenBodyLower = toLowerCase tokenBodyRaw
      in if startsWith tokenBodyLower ''/''
         then (let closingTag = drop 1 tokenBodyLower
               in case parseStack of
                    [] \<Rightarrow> []
                  | activeNode # outer \<Rightarrow>
                      if length parseStack > 1 \<and> tagText (tag activeNode) = closingTag
                      then pushChild (renderTagNode parseUrl activeNode) outer
                      else pushChild (TextNode matched) parseStack)
         else (let isUrlTagWithArgument = startsWith tokenBodyLower ''url='';
                   openingTagName = (if isUrlTagWithArgument then ''url'' else tokenBodyLower)
               in case openingTag openingTagName of
                    Some tagName \<Rightarrow>
                      \<lparr>tag = tagName,
                       url = (if isUrlTagWithArgument then Some (drop 4 tokenBodyRaw) else None),
                       children = []\<rparr> # parseStack
                  | None \<Rightarrow> pushChild (TextNode matched) parseStack))"

definition processSegment ::
  "(string \<Rightarrow> parsed_url option) \<Rightarrow> segment \<Rightarrow> ParsedTagNode list \<Rightarrow> ParsedTagNode list" where
  "processSegment parseUrl seg parseStack =
     (case seg of
        TextSegment text \<Rightarrow> pushChild (TextNode text) parseStack
      | TokenSegment (BrToken matched) \<Rightarrow> pushChild LineBreak parseStack
      | TokenSegment (TagToken tokenBodyRaw matched) \<Rightarrow>
          processTagToken parseUrl tokenBodyRaw matched parseStack)"

text \<open>The closing loop: a tag left open is put back as text, followed by its children.\<close>

fun unwindDangling :: "ParsedTagNode list \<Rightarrow> react_node list" where
  "unwindDangling [] = []"
| "unwindDangling [rootNode] = children rootNode"
| "unwindDangling (danglingNode # parentNode # outer) =
     unwindDangling
       (parentNode\<lparr>children :=
           children parentNode
           @ TextNode (''['' @ tagText (tag danglingNode) @ '']'') # children danglingNode\<rparr>
        # outer)"

definition renderVndbDescription :: "(string \<Rightarrow> parsed_url option) \<Rightarrow> string \<Rightarrow> react_node list" where
  "renderVndbDescription parseUrl descriptionText =
     unwindDangling
       (fold (processSegment parseUrl) (scanTokens descriptionText [] 0)
          [\<lparr>tag = TagRoot, url = None, children = []\<rparr>])"

text \<open>The link targets of a rendered tree, at every depth.\<close>

primrec linkTargets :: "react_node \<Rightarrow> string list" where
  "linkTargets (TextNode s) = []"
| "linkTargets LineBreak = []"
| "linkTargets (Strong nodes) = concat (map linkTargets nodes)"
| "linkTargets (Emphasis nodes) = concat (map linkTargets nodes)"
| "linkTargets (Underline nodes) = concat (map linkTargets nodes)"
| "linkTargets (Span nodes) = concat (map linkTargets nodes)"
| "linkTargets (Anchor link nodes) = link # concat (map linkTargets nodes)"

definition allLinkTargets :: "react_node list \<Rightarrow> string list" where
  "allLinkTargets nodes = concat (map linkTargets nodes)"

text \<open>
  A link is safe for a parser when it is the serialisation of a URL that the parser
  accepted, from a non-empty trimmed text, with an allowed protocol; a parse stack is safe
  when every link among the children collected so far is.
\<close>

definition safeLink :: "(string \<Rightarrow> parsed_url option) \<Rightarrow> string \<Rightarrow> bool" where
  "safeLink parseUrl link =
     (\<exists>rawUrl parsedUrl. trim rawUrl \<noteq> [] \<and> parseUrl (withProtocol (trim rawUrl)) = Some parsedUrl
        \<and> allowedProtocol (protocol parsedUrl) \<and> serialized parsedUrl = link)"

definition stackSafe :: "(string \<Rightarrow> parsed_url option) \<Rightarrow> ParsedTagNode list \<Rightarrow> bool" where
  "stackSafe parseUrl parseStack =
     (\<forall>node \<in> set parseStack. \<forall>h \<in> set (allLinkTargets (children node)). safeLink parseUrl h)"

section \<open>Inputs for evaluation\<close>

text \<open>A personal-list cache holding one page, and a stand-in for \<open>JSON.stringify\<close> as the cache key.\<close>

definition sampleCache :: "nat cache_store" where
  "sampleCache = [''page1'' \<mapsto> \<lparr>expiresAt = 300000, payload = 7\<rparr>]"


text \<open>Remotes for the membership-set fetch: one that always reports more pages, one with two pages.\<close>

definition remoteAlwaysMore :: "http_request \<Rightarrow> identifier_page fetch_outcome" where
  "remoteAlwaysMore request = FetchResponse 200 \<lparr>pageResults = Some [IdNumber 17], pageMore = Some True\<rparr>"

definition remoteTwoPages :: "http_request \<Rightarrow> identifier_page fetch_outcome" where
  "remoteTwoPages request =
     (if reqBody request = UlistBody ''u2'' ''id'' 100 1
      then FetchResponse 200 \<lparr>pageResults = Some [IdString ''V1''], pageMore = Some True\<rparr>
      else FetchResponse 200 \<lparr>pageResults = Some [IdNumber 2], pageMore = None\<rparr>)"





text \<open>A text-kind descriptor with a term and selected languages, no other filter, default sort.\<close>

definition textDescriptor :: "string \<Rightarrow> string list \<Rightarrow> ListQueryDescriptor" where
  "textDescriptor searchTerm languageCodes =
     \<lparr>kind = TextKind, queryTerm = searchTerm, tagIdentifier = None, developerIdentifier = None,
      filters = \<lparr>languages = languageCodes, originalLanguage = [],
                 onlyWithScreenshots = False, onlyWithDescription = False\<rparr>,
      querySort = \<lparr>field = SortDefault, direction = Desc\<rparr>\<rparr>"

text \<open>A catalogue row without rating and cover image.\<close>

definition sampleEntry :: "string \<Rightarrow> string \<Rightarrow> unit VisualNovelDatabaseEntry" where
  "sampleEntry identifier entryTitle =
     \<lparr>entryId = identifier, title = entryTitle, rating = None, coverImage = None\<rparr>"

text \<open>
  The state of the component when it has just mounted (the \<open>useState\<close> defaults, no
  remembered filters), and an idle state in which the remote has reported more results.
\<close>

definition initialListViewState :: "unit list_view_state" where
  "initialListViewState =
     \<lparr>visualNovelDatabaseEntries = [], isDataLoading = True, isLoadingAdditionalPage = False,
      networkErrorMessage = None, activeQueryDescriptor = textDescriptor [] [],
      isViewingUserList = False, currentResultPage = 1, hasAdditionalResults = False,
      userListIdentifierSet = {}, userListStatusByIdentifier = Map.empty\<rparr>"



text \<open>
  Two search fetches begun one after the other, the older for the term \<open>a\<close>, the newer
  for the term \<open>ab\<close>; the newer settles first, the older last.
\<close>

definition olderResponse :: "unit VisualNovelQueryResponse" where
  "olderResponse = \<lparr>results = [sampleEntry ''v1'' ''Older''], moreResults = False\<rparr>"

definition newerResponse :: "unit VisualNovelQueryResponse" where
  "newerResponse = \<lparr>results = [sampleEntry ''v2'' ''Newer''], moreResults = False\<rparr>"

definition olderResolvesLast :: "unit list_view_state" where
  "olderResolvesLast =
     executeDataFetchOperation_settle (textDescriptor ''a'' []) 1 False (Fulfilled olderResponse)
       (executeDataFetchOperation_settle (textDescriptor ''ab'' []) 1 False (Fulfilled newerResponse)
         (executeDataFetchOperation_begin False
           (executeDataFetchOperation_begin False initialListViewState)))"

text \<open>A list entry whose only label, 9, is no status label.\<close>

definition unlabelledEntry :: "unit raw_user_list_entry" where
  "unlabelledEntry =
     \<lparr>rawId = IdString ''v17'', rawVn = VnScalar IdAbsent, rawLabels = Some [LabelNumber 9]\<rparr>"





text \<open>
  A stand-in for \<open>new URL\<close> on the inputs evaluated: it rejects text with a space,
  reads the protocol up to the first colon (in lower case) and serialises the text as it is.
\<close>

definition sampleParseUrl :: "string \<Rightarrow> parsed_url option" where
  "sampleParseUrl s =
     (if CHR '' '' \<in> set s then None
      else Some \<lparr>protocol = toLowerCase (takeWhile (\<lambda>c. c \<noteq> CHR '':'') s) @ '':'', serialized = s\<rparr>)"

chapter \<open>Properties\<close>

section \<open>Response cache\<close>

lemma readFromCache_hit_fresh:
  "snd (readFromCache now cacheStore cacheKey) = Some p \<Longrightarrow>
     \<exists>e. cacheStore cacheKey = Some e \<and> payload e = p \<and> now \<le> expiresAt e"
  by (auto simp: readFromCache_def split: option.splits if_splits)

lemma readFromCache_expired:
  "cacheStore cacheKey = Some e \<Longrightarrow> expiresAt e < now \<Longrightarrow>
     readFromCache now cacheStore cacheKey = (cacheStore(cacheKey := None), None)"
  by (simp add: readFromCache_def)

lemma readFromCache_after_write:
  "readFromCache now (writeToCache now cacheStore cacheKey p) cacheKey =
     (writeToCache now cacheStore cacheKey p, Some p)"
  by (simp add: readFromCache_def writeToCache_def CACHE_TIME_TO_LIVE_MILLISECONDS_def)

lemma readFromCache_after_ttl:
  "now + CACHE_TIME_TO_LIVE_MILLISECONDS < later \<Longrightarrow>
     readFromCache later (writeToCache now cacheStore cacheKey p) cacheKey =
       ((writeToCache now cacheStore cacheKey p)(cacheKey := None), None)"
  by (simp add: readFromCache_def writeToCache_def)

text \<open>
  Claim C5. A cache read never returns an entry once the current time is past its
  \<open>expiresAt\<close>: whatever a read returns comes from an entry that has not expired, and a read
  of an expired entry is a miss that removes the entry. A write followed at once by a read of
  the same key returns the payload and leaves the store as written; a read later than five
  minutes (300000 ms) after the write is a miss, and the key is gone from the store it leaves.
\<close>

theorem cache_read_respects_expiry:
  "(snd (readFromCache now cacheStore cacheKey) = Some p \<longrightarrow>
      (\<exists>e. cacheStore cacheKey = Some e \<and> payload e = p \<and> now \<le> expiresAt e))
   \<and> (cacheStore cacheKey = Some e' \<and> expiresAt e' < now \<longrightarrow>
      readFromCache now cacheStore cacheKey = (cacheStore(cacheKey := None), None))
   \<and> readFromCache now (writeToCache now cacheStore cacheKey q) cacheKey =
        (writeToCache now cacheStore cacheKey q, Some q)
   \<and> (now + 300000 < later \<longrightarrow>
        snd (readFromCache later (writeToCache now cacheStore cacheKey q) cacheKey) = None
        \<and> fst (readFromCache later (writeToCache now cacheStore cacheKey q) cacheKey) cacheKey = None)"
proof -
  have ttl: "CACHE_TIME_TO_LIVE_MILLISECONDS = 300000"
    by (simp add: CACHE_TIME_TO_LIVE_MILLISECONDS_def)
  show ?thesis
    using readFromCache_hit_fresh [of now cacheStore cacheKey p]
      readFromCache_expired [of cacheStore cacheKey e' now]
      readFromCache_after_write [of now cacheStore cacheKey q]
      readFromCache_after_ttl [of now later cacheStore cacheKey q]
    by (simp add: ttl)
qed

theorem cache_read_respects_expiry_witness:
  "snd (readFromCache 1000 (writeToCache 1000 Map.empty ''k'' (7::nat)) ''k'') = Some 7
   \<and> (writeToCache 1000 Map.empty ''k'' (7::nat)) ''k''
        = Some \<lparr>expiresAt = 301000, payload = 7\<rparr>
   \<and> (301000::int) < 301001
   \<and> readFromCache 301001 (writeToCache 1000 Map.empty ''k'' (7::nat)) ''k''
        = ((writeToCache 1000 Map.empty ''k'' (7::nat))(''k'' := None), None)
   \<and> (1000::int) + 300000 < 301001
   \<and> snd (readFromCache 301001 (writeToCache 1000 Map.empty ''k'' (7::nat)) ''k'') = None
   \<and> fst (readFromCache 301001 (writeToCache 1000 Map.empty ''k'' (7::nat)) ''k'') ''k'' = None"
  using cache_read_respects_expiry
    [of 1000 "writeToCache 1000 Map.empty ''k'' (7::nat)" "''k''" 7
        "\<lparr>expiresAt = 301000, payload = 7\<rparr>" 7 301001]
    cache_read_respects_expiry
    [of 301001 "writeToCache 1000 Map.empty ''k'' (7::nat)" "''k''" 7
        "\<lparr>expiresAt = 301000, payload = 7\<rparr>" 7 301001]
  by (simp add: writeToCache_def readFromCache_def CACHE_TIME_TO_LIVE_MILLISECONDS_def)

section \<open>Membership-set fetch\<close>

lemma identifierSetLoop_stop:
  "\<not> (h \<and> p \<le> 40) \<Longrightarrow> identifierSetLoop remote baseUrl tok usr h p s iss = (iss, Inr s)"
  by (subst identifierSetLoop.simps) (auto simp: MAXIMUM_USER_LIST_PAGES_def)

lemma identifierSetLoop_rejected:
  "p \<le> 40 \<Longrightarrow> remote (identifierPageRequest baseUrl tok usr p) = FetchRejected message \<Longrightarrow>
     identifierSetLoop remote baseUrl tok usr True p s iss =
       (iss @ [identifierPageRequest baseUrl tok usr p], Inl (TransportError message))"
  by (subst identifierSetLoop.simps) (simp add: MAXIMUM_USER_LIST_PAGES_def)

lemma identifierSetLoop_failed:
  "p \<le> 40 \<Longrightarrow> remote (identifierPageRequest baseUrl tok usr p) = FetchResponse st pl \<Longrightarrow> \<not> ok st \<Longrightarrow>
     identifierSetLoop remote baseUrl tok usr True p s iss =
       (iss @ [identifierPageRequest baseUrl tok usr p], Inl (IdentifierSetFailed st))"
  by (subst identifierSetLoop.simps) (simp add: MAXIMUM_USER_LIST_PAGES_def)

lemma identifierSetLoop_step:
  "p \<le> 40 \<Longrightarrow> remote (identifierPageRequest baseUrl tok usr p) = FetchResponse st pl \<Longrightarrow> ok st \<Longrightarrow>
     identifierSetLoop remote baseUrl tok usr True p s iss =
       identifierSetLoop remote baseUrl tok usr (truthy (pageMore pl)) (p + 1)
         (fold addRawIdentifier (case pageResults pl of None \<Rightarrow> [] | Some entries \<Rightarrow> entries) s)
         (iss @ [identifierPageRequest baseUrl tok usr p])"
  by (subst identifierSetLoop.simps) (simp add: MAXIMUM_USER_LIST_PAGES_def)

lemma identifierSetLoop_length_le:
  "length (fst (identifierSetLoop remote baseUrl tok usr h p s iss)) \<le> length iss + (41 - p)"
proof (induction remote baseUrl tok usr h p s iss rule: identifierSetLoop.induct)
  case (1 remote baseUrl tok usr h p s iss)
  let ?req = "identifierPageRequest baseUrl tok usr p"
  show ?case
  proof (cases "h \<and> p \<le> 40")
    case False
    then show ?thesis by (simp add: identifierSetLoop_stop)
  next
    case True
    then have h: h and p40: "p \<le> 40" by simp_all
    have cond: "h \<and> p \<le> MAXIMUM_USER_LIST_PAGES"
      using True by (simp add: MAXIMUM_USER_LIST_PAGES_def)
    show ?thesis
    proof (cases "remote ?req")
      case (FetchRejected message)
      with h p40 show ?thesis by (simp add: identifierSetLoop_rejected)
    next
      case (FetchResponse st responsePayload)
      show ?thesis
      proof (cases "ok st")
        case False
        with h p40 FetchResponse show ?thesis by (simp add: identifierSetLoop_failed)
      next
        case okst: True
        have "length (fst (identifierSetLoop remote baseUrl tok usr (truthy (pageMore responsePayload)) (p + 1)
                 (fold addRawIdentifier (case pageResults responsePayload of None \<Rightarrow> [] | Some entries \<Rightarrow> entries) s)
                 (iss @ [?req])))
              \<le> length (iss @ [?req]) + (41 - (p + 1))"
          using "1.IH" [OF cond refl FetchResponse _ refl] okst by simp
        with h p40 FetchResponse okst show ?thesis
          by (simp add: identifierSetLoop_step)
      qed
    qed
  qed
qed

lemma identifierSetLoop_run:
  assumes "\<forall>j. p \<le> j \<and> j < k \<longrightarrow>
             (\<exists>st pl. remote (identifierPageRequest baseUrl tok usr j) = FetchResponse st pl
                       \<and> ok st \<and> pageMore pl = Some True)"
    and "p \<le> k" and "k \<le> 41"
  shows "\<exists>s'. identifierSetLoop remote baseUrl tok usr True p s iss =
           identifierSetLoop remote baseUrl tok usr True k s'
             (iss @ map (identifierPageRequest baseUrl tok usr) [p..<k])"
  using assms
proof (induction "k - p" arbitrary: p s iss)
  case 0
  then have "p = k" by simp
  then show ?case by auto
next
  case (Suc n)
  then have pk: "p < k" and p40: "p \<le> 40" by simp_all
  from Suc.prems(1) pk obtain st pl where
    r: "remote (identifierPageRequest baseUrl tok usr p) = FetchResponse st pl"
    and okst: "ok st" and more: "pageMore pl = Some True"
    by blast
  have step: "identifierSetLoop remote baseUrl tok usr True p s iss =
       identifierSetLoop remote baseUrl tok usr True (p + 1)
         (fold addRawIdentifier (case pageResults pl of None \<Rightarrow> [] | Some entries \<Rightarrow> entries) s)
         (iss @ [identifierPageRequest baseUrl tok usr p])"
    using identifierSetLoop_step [of p remote baseUrl tok usr st pl s iss] p40 r okst more
    by (simp add: truthy_def)
  have "n = k - (p + 1)" using Suc.hyps(2) by simp
  moreover have "\<forall>j. p + 1 \<le> j \<and> j < k \<longrightarrow>
             (\<exists>st pl. remote (identifierPageRequest baseUrl tok usr j) = FetchResponse st pl
                       \<and> ok st \<and> pageMore pl = Some True)"
    using Suc.prems(1) by simp
  moreover have "p + 1 \<le> k" using pk by simp
  ultimately obtain s' where
    "identifierSetLoop remote baseUrl tok usr True (p + 1)
         (fold addRawIdentifier (case pageResults pl of None \<Rightarrow> [] | Some entries \<Rightarrow> entries) s)
         (iss @ [identifierPageRequest baseUrl tok usr p]) =
     identifierSetLoop remote baseUrl tok usr True k s'
       ((iss @ [identifierPageRequest baseUrl tok usr p]) @ map (identifierPageRequest baseUrl tok usr) [p + 1..<k])"
    using Suc.hyps(1) [of "p + 1"] Suc.prems(3) by blast
  moreover have "[p..<k] = p # [p + 1..<k]" using pk by (simp add: upt_conv_Cons)
  ultimately show ?case using step by auto
qed

lemma identifierSetLoop_sequential:
  "\<exists>n. n \<le> 41 - p \<and>
     fst (identifierSetLoop remote baseUrl tok usr h p s iss) =
       iss @ map (identifierPageRequest baseUrl tok usr) [p..<p + n]"
proof (induction remote baseUrl tok usr h p s iss rule: identifierSetLoop.induct)
  case (1 remote baseUrl tok usr h p s iss)
  let ?req = "identifierPageRequest baseUrl tok usr p"
  show ?case
  proof (cases "h \<and> p \<le> 40")
    case False
    then have "fst (identifierSetLoop remote baseUrl tok usr h p s iss) =
        iss @ map (identifierPageRequest baseUrl tok usr) [p..<p + 0]"
      by (simp add: identifierSetLoop_stop)
    then show ?thesis by blast
  next
    case True
    then have h: h and p40: "p \<le> 40" by simp_all
    have cond: "h \<and> p \<le> MAXIMUM_USER_LIST_PAGES"
      using True by (simp add: MAXIMUM_USER_LIST_PAGES_def)
    have one: "iss @ [?req] = iss @ map (identifierPageRequest baseUrl tok usr) [p..<p + 1]"
      by simp
    show ?thesis
    proof (cases "remote ?req")
      case (FetchRejected message)
      with h p40 one have "1 \<le> 41 - p \<and> fst (identifierSetLoop remote baseUrl tok usr h p s iss) =
          iss @ map (identifierPageRequest baseUrl tok usr) [p..<p + 1]"
        by (simp add: identifierSetLoop_rejected)
      then show ?thesis by blast
    next
      case (FetchResponse st responsePayload)
      show ?thesis
      proof (cases "ok st")
        case False
        with h p40 one FetchResponse
        have "1 \<le> 41 - p \<and> fst (identifierSetLoop remote baseUrl tok usr h p s iss) =
            iss @ map (identifierPageRequest baseUrl tok usr) [p..<p + 1]"
          by (simp add: identifierSetLoop_failed)
        then show ?thesis by blast
      next
        case okst: True
        let ?next = "identifierSetLoop remote baseUrl tok usr (truthy (pageMore responsePayload)) (p + 1)
                 (fold addRawIdentifier (case pageResults responsePayload of None \<Rightarrow> [] | Some entries \<Rightarrow> entries) s)
                 (iss @ [?req])"
        have "\<exists>n. n \<le> 41 - (p + 1) \<and>
                fst ?next = (iss @ [?req]) @ map (identifierPageRequest baseUrl tok usr) [p + 1..<p + 1 + n]"
          using "1.IH" [OF cond refl FetchResponse _ refl] okst by simp
        then obtain n where n: "n \<le> 41 - (p + 1)"
          and eq: "fst ?next = (iss @ [?req]) @ map (identifierPageRequest baseUrl tok usr) [p + 1..<p + 1 + n]"
          by blast
        have unfold: "identifierSetLoop remote baseUrl tok usr h p s iss = ?next"
          using h p40 FetchResponse okst by (simp add: identifierSetLoop_step)
        have "[p..<p + (n + 1)] = p # [p + 1..<p + 1 + n]"
          by (simp add: upt_conv_Cons)
        then have "fst (identifierSetLoop remote baseUrl tok usr h p s iss) =
            iss @ map (identifierPageRequest baseUrl tok usr) [p..<p + (n + 1)]"
          using unfold eq by simp
        moreover have "n + 1 \<le> 41 - p" using n p40 by simp
        ultimately show ?thesis by blast
      qed
    qed
  qed
qed

text \<open>
  Claim C8. The membership-set fetch asks for the pages 1, 2, 3, ... one after the other and
  issues at most 40 requests, whatever the remote answers: when each of the 40 pages is
  answered with success and \<open>more = true\<close> it stops after the 40th and returns a set;
  when page \<open>k\<close> is the first whose \<open>more\<close> is false or missing it stops after
  exactly \<open>k\<close> requests and returns a set.
\<close>

theorem identifier_set_fetch_bounded:
  "(let issued = fst (fetchAuthenticatedUserVisualNovelIdentifierSet remote baseUrl tok usr);
        outcome = snd (fetchAuthenticatedUserVisualNovelIdentifierSet remote baseUrl tok usr);
        request = identifierPageRequest baseUrl tok usr
    in length issued \<le> 40
     \<and> issued = map request [1..<Suc (length issued)]
     \<and> ((\<forall>j. 1 \<le> j \<and> j \<le> 40 \<longrightarrow> pageAnswered remote (request j) True)
          \<longrightarrow> issued = map request [1..<41] \<and> (\<exists>ids. outcome = Inr ids))
     \<and> ((1 \<le> k \<and> k \<le> 40 \<and> (\<forall>j. 1 \<le> j \<and> j < k \<longrightarrow> pageAnswered remote (request j) True)
           \<and> pageAnswered remote (request k) False)
          \<longrightarrow> issued = map request [1..<Suc k] \<and> (\<exists>ids. outcome = Inr ids)))"
proof -
  define issued where "issued = fst (fetchAuthenticatedUserVisualNovelIdentifierSet remote baseUrl tok usr)"
  define outcome where "outcome = snd (fetchAuthenticatedUserVisualNovelIdentifierSet remote baseUrl tok usr)"
  define request where "request = identifierPageRequest baseUrl tok usr"
  have ans: "pageAnswered remote (request j) b \<Longrightarrow>
      \<exists>st pl. remote (identifierPageRequest baseUrl tok usr j) = FetchResponse st pl \<and> ok st
        \<and> truthy (pageMore pl) = b" for j b
    by (auto simp: pageAnswered_def request_def split: fetch_outcome.splits)
  obtain n where n: "n \<le> 40" and seq: "issued = map request [1..<1 + n]"
    using identifierSetLoop_sequential [of 1 remote baseUrl tok usr True "{}" "[]"]
    by (auto simp: issued_def request_def fetchAuthenticatedUserVisualNovelIdentifierSet_def)
  have len: "length issued = n" using seq by simp
  have c1: "length issued \<le> 40" using len n by simp
  have c2: "issued = map request [1..<Suc (length issued)]" using seq len by simp
  have c3: "issued = map request [1..<41] \<and> (\<exists>ids. outcome = Inr ids)"
    if all: "\<forall>j. 1 \<le> j \<and> j \<le> 40 \<longrightarrow> pageAnswered remote (request j) True"
  proof -
    have "\<forall>j. 1 \<le> j \<and> j < 41 \<longrightarrow>
             (\<exists>st pl. remote (identifierPageRequest baseUrl tok usr j) = FetchResponse st pl
                       \<and> ok st \<and> pageMore pl = Some True)"
      using all ans [of _ True] by (fastforce simp: truthy_def)
    then obtain s' where "identifierSetLoop remote baseUrl tok usr True 1 {} [] =
           identifierSetLoop remote baseUrl tok usr True 41 s'
             ([] @ map (identifierPageRequest baseUrl tok usr) [1..<41])"
      using identifierSetLoop_run [of 1 41 remote baseUrl tok usr "{}" "[]"] by auto
    then show ?thesis
      by (simp add: issued_def outcome_def request_def
          fetchAuthenticatedUserVisualNovelIdentifierSet_def identifierSetLoop_stop)
  qed
  have c4: "issued = map request [1..<Suc k] \<and> (\<exists>ids. outcome = Inr ids)"
    if hyp: "1 \<le> k \<and> k \<le> 40 \<and> (\<forall>j. 1 \<le> j \<and> j < k \<longrightarrow> pageAnswered remote (request j) True)
          \<and> pageAnswered remote (request k) False"
  proof -
    from hyp have k1: "1 \<le> k" and k40: "k \<le> 40" by simp_all
    have "\<forall>j. 1 \<le> j \<and> j < k \<longrightarrow>
             (\<exists>st pl. remote (identifierPageRequest baseUrl tok usr j) = FetchResponse st pl
                       \<and> ok st \<and> pageMore pl = Some True)"
      using hyp ans [of _ True] by (fastforce simp: truthy_def)
    then obtain s' where run: "identifierSetLoop remote baseUrl tok usr True 1 {} [] =
           identifierSetLoop remote baseUrl tok usr True k s'
             ([] @ map (identifierPageRequest baseUrl tok usr) [1..<k])"
      using identifierSetLoop_run [of 1 k remote baseUrl tok usr "{}" "[]"] k1 k40 by auto
    from hyp ans [of k False] obtain st pl where
      r: "remote (identifierPageRequest baseUrl tok usr k) = FetchResponse st pl"
      and okst: "ok st" and nomore: "\<not> truthy (pageMore pl)"
      by auto
    have "[1..<Suc k] = [1..<k] @ [k]" using k1 by simp
    then show ?thesis
      using run identifierSetLoop_step [of k remote baseUrl tok usr st pl s'
          "map (identifierPageRequest baseUrl tok usr) [1..<k]"] k40 r okst nomore
      by (simp add: issued_def outcome_def request_def
          fetchAuthenticatedUserVisualNovelIdentifierSet_def identifierSetLoop_stop)
  qed
  have "length issued \<le> 40
     \<and> issued = map request [1..<Suc (length issued)]
     \<and> ((\<forall>j. 1 \<le> j \<and> j \<le> 40 \<longrightarrow> pageAnswered remote (request j) True)
          \<longrightarrow> issued = map request [1..<41] \<and> (\<exists>ids. outcome = Inr ids))
     \<and> ((1 \<le> k \<and> k \<le> 40 \<and> (\<forall>j. 1 \<le> j \<and> j < k \<longrightarrow> pageAnswered remote (request j) True)
           \<and> pageAnswered remote (request k) False)
          \<longrightarrow> issued = map request [1..<Suc k] \<and> (\<exists>ids. outcome = Inr ids))"
    using c1 c2 c3 c4 by blast
  then show ?thesis
    unfolding Let_def issued_def outcome_def request_def .
qed

theorem identifier_set_fetch_bounded_witness:
  "length (fst (fetchAuthenticatedUserVisualNovelIdentifierSet remoteAlwaysMore ''/api/vndb'' ''tok'' ''u2'')) = 40
   \<and> (1::nat) \<le> 2 \<and> (2::nat) \<le> 40
   \<and> pageAnswered remoteTwoPages (identifierPageRequest ''/api/vndb'' ''tok'' ''u2'' 1) True
   \<and> pageAnswered remoteTwoPages (identifierPageRequest ''/api/vndb'' ''tok'' ''u2'' 2) False
   \<and> fst (fetchAuthenticatedUserVisualNovelIdentifierSet remoteTwoPages ''/api/vndb'' ''tok'' ''u2'')
       = [identifierPageRequest ''/api/vndb'' ''tok'' ''u2'' 1, identifierPageRequest ''/api/vndb'' ''tok'' ''u2'' 2]"
proof -
  have u2: "normalizeUserIdentifier ''u2'' = ''u2''"
    by (simp add: normalizeUserIdentifier_def toLowerCase_def lowerChar_def)
  have h1: "\<forall>j. 1 \<le> j \<and> j \<le> 40 \<longrightarrow>
       pageAnswered remoteAlwaysMore (identifierPageRequest ''/api/vndb'' ''tok'' ''u2'' j) True"
    by (simp add: pageAnswered_def remoteAlwaysMore_def ok_def truthy_def)
  have one: "j = 1" if "1 \<le> j \<and> j < 2" for j :: nat using that by arith
  have h2: "\<forall>j. 1 \<le> j \<and> j < 2 \<longrightarrow>
       pageAnswered remoteTwoPages (identifierPageRequest ''/api/vndb'' ''tok'' ''u2'' j) True"
    using one
    by (auto simp: pageAnswered_def remoteTwoPages_def identifierPageRequest_def ulistRequest_def u2
        ok_def truthy_def)
  have h3: "pageAnswered remoteTwoPages (identifierPageRequest ''/api/vndb'' ''tok'' ''u2'' 2) False"
    by (simp add: pageAnswered_def remoteTwoPages_def identifierPageRequest_def ulistRequest_def u2
        ok_def truthy_def)
  have upt2: "[1..<Suc 2] = [1, 2]" by (simp add: upt_conv_Cons)
  show ?thesis
    using h1 h2 h3 upt2
      identifier_set_fetch_bounded [of remoteAlwaysMore "''/api/vndb''" "''tok''" "''u2''" 2]
      identifier_set_fetch_bounded [of remoteTwoPages "''/api/vndb''" "''tok''" "''u2''" 2]
    by (simp add: Let_def)
qed

section \<open>Compatibility fallback\<close>













section \<open>Cache invalidation by personal-list writes\<close>

text \<open>
  Claim C9. Each personal-list write (add, status update, remove) leaves the personal-list
  read cache unchanged when it throws, and when it returns normally the cache is empty and
  the last request it issued was answered with a success status.
\<close>

theorem list_writes_clear_cache_only_on_success:
  "clearsOnlyOnSuccess remote cache (addVisualNovelToAuthenticatedUserList remote baseUrl cache tok vn l)
   \<and> clearsOnlyOnSuccess remote' cache (updateAuthenticatedUserVisualNovelStatusLabel remote' baseUrl cache tok vn l)
   \<and> clearsOnlyOnSuccess remote' cache (removeVisualNovelFromAuthenticatedUserList remote' baseUrl cache tok vn)"
proof (intro conjI)
  show "clearsOnlyOnSuccess remote cache (addVisualNovelToAuthenticatedUserList remote baseUrl cache tok vn l)"
  proof (cases "trim vn = []")
    case True
    then show ?thesis
      by (simp add: clearsOnlyOnSuccess_def addVisualNovelToAuthenticatedUserList_def)
  next
    case False
    then show ?thesis
      by (simp add: clearsOnlyOnSuccess_def respondedOk_def addVisualNovelToAuthenticatedUserList_def
          Let_def split: fetch_outcome.splits)
  qed
next
  show "clearsOnlyOnSuccess remote' cache
          (updateAuthenticatedUserVisualNovelStatusLabel remote' baseUrl cache tok vn l)"
    by (simp add: clearsOnlyOnSuccess_def respondedOk_def
        updateAuthenticatedUserVisualNovelStatusLabel_def Let_def split: fetch_outcome.splits)
next
  show "clearsOnlyOnSuccess remote' cache
          (removeVisualNovelFromAuthenticatedUserList remote' baseUrl cache tok vn)"
    by (simp add: clearsOnlyOnSuccess_def respondedOk_def
        removeVisualNovelFromAuthenticatedUserList_def Let_def split: fetch_outcome.splits)
qed

theorem list_writes_clear_cache_only_on_success_witness:
  "snd (addVisualNovelToAuthenticatedUserList (\<lambda>r. FetchResponse 500 ''down'') ''/api/vndb'' sampleCache ''tok'' ''V17'' 5)
     = (sampleCache, Inl (AddFailed 500 ''down''))
   \<and> snd (addVisualNovelToAuthenticatedUserList (\<lambda>r. FetchResponse 200 []) ''/api/vndb'' sampleCache ''tok'' ''V17'' 5)
     = (Map.empty, Inr ())
   \<and> snd (updateAuthenticatedUserVisualNovelStatusLabel (\<lambda>r. FetchResponse 401 ()) ''/api/vndb'' sampleCache ''tok'' ''V17'' 2)
     = (sampleCache, Inl (UpdateStatusFailed 401))
   \<and> snd (updateAuthenticatedUserVisualNovelStatusLabel (\<lambda>r. FetchResponse 200 ()) ''/api/vndb'' sampleCache ''tok'' ''V17'' 2)
     = (Map.empty, Inr ())
   \<and> snd (removeVisualNovelFromAuthenticatedUserList (\<lambda>r. FetchRejected ''offline'' :: unit fetch_outcome) ''/api/vndb'' sampleCache ''tok'' ''V17'')
     = (sampleCache, Inl (TransportError ''offline''))
   \<and> snd (removeVisualNovelFromAuthenticatedUserList (\<lambda>r. FetchResponse 204 ()) ''/api/vndb'' sampleCache ''tok'' ''V17'')
     = (Map.empty, Inr ())"
  using list_writes_clear_cache_only_on_success
    [of "\<lambda>r. FetchResponse 500 ''down''" sampleCache "''/api/vndb''" "''tok''" "''V17''" 5 "\<lambda>r. FetchResponse 401 ()"]
    list_writes_clear_cache_only_on_success
    [of "\<lambda>r. FetchResponse 200 []" sampleCache "''/api/vndb''" "''tok''" "''V17''" 5 "\<lambda>r. FetchResponse 200 ()"]
    list_writes_clear_cache_only_on_success
    [of "\<lambda>r. FetchResponse 200 []" sampleCache "''/api/vndb''" "''tok''" "''V17''" 5 "\<lambda>r. FetchRejected ''offline'' :: unit fetch_outcome"]
    list_writes_clear_cache_only_on_success
    [of "\<lambda>r. FetchResponse 200 []" sampleCache "''/api/vndb''" "''tok''" "''V17''" 5 "\<lambda>r. FetchResponse 204 ()"]
  by (simp add: clearsOnlyOnSuccess_def respondedOk_def addVisualNovelToAuthenticatedUserList_def
      updateAuthenticatedUserVisualNovelStatusLabel_def removeVisualNovelFromAuthenticatedUserList_def
      Let_def ok_def addFailure_def trim_def isWhiteSpace_def)

section \<open>Filter expression builder\<close>

lemma trim_Nil: "trim [] = []"
  by (simp add: trim_def)


lemma hd_filterClauses: "filterClauses qd ! 0 = primaryClause qd"
  by (simp add: filterClauses_def)




section \<open>Pagination\<close>








section \<open>Superseded fetches\<close>

lemma membership_superseded_is_discarded:
  "executeUserListIdentifierFetch_settle True outcome s = s"
  by (simp add: executeUserListIdentifierFetch_settle_def split: settled.splits)

lemma membership_late_response_keeps_newer:
  "userListIdentifierSet
     (executeUserListIdentifierFetch_settle True (Fulfilled olderSet)
        (executeUserListIdentifierFetch_settle False (Fulfilled newerSet) s)) = newerSet"
  by (simp add: executeUserListIdentifierFetch_settle_def)

lemma search_late_response_replaces_newer:
  "visualNovelDatabaseEntries
     (executeDataFetchOperation_settle qdA pageA False (Fulfilled rA)
        (executeDataFetchOperation_settle qdB pageB False (Fulfilled rB)
           (executeDataFetchOperation_begin False (executeDataFetchOperation_begin False s))))
     = results rA"
  by (simp add: executeDataFetchOperation_settle_def executeDataFetchOperation_finally_def)

text \<open>
  Claim C1 asks that the late response of a superseded fetch be discarded. The membership-set
  fetch does so (lemmas above); the search fetch has no such check. Evaluated on the race of
  the claim: the fetch for \<open>a\<close> begins, the fetch for \<open>ab\<close> begins, the response for
  \<open>ab\<close> is committed, then the response for \<open>a\<close> arrives. The rows shown at the end
  are those of the older fetch, not those of the newer one, and the older descriptor is the
  active one.
\<close>

theorem superseded_search_response_is_committed:
  "visualNovelDatabaseEntries olderResolvesLast = results olderResponse
   \<and> visualNovelDatabaseEntries olderResolvesLast \<noteq> results newerResponse
   \<and> activeQueryDescriptor olderResolvesLast = textDescriptor ''a'' []"
  by (simp add: olderResolvesLast_def executeDataFetchOperation_settle_def
      executeDataFetchOperation_finally_def olderResponse_def newerResponse_def sampleEntry_def)

section \<open>Status derivation\<close>

lemma STATUS_LABEL_IDENTIFIERS_upto: "STATUS_LABEL_IDENTIFIERS = [1..6]"
  by (simp add: STATUS_LABEL_IDENTIFIERS_def upto_rec1)

lemma find_upto_Some:
  "find P [i..j] = Some l \<Longrightarrow> P l \<and> i \<le> l \<and> l \<le> j \<and> (\<forall>k. i \<le> k \<and> k < l \<longrightarrow> \<not> P k)"
proof (induction i j rule: upto.induct)
  case (1 i j)
  show ?case
  proof (cases "i \<le> j")
    case False
    then have "[i..j] = []" by simp
    with "1.prems" show ?thesis by simp
  next
    case True
    then have u: "[i..j] = i # [i + 1..j]" by (simp add: upto_rec1)
    show ?thesis
    proof (cases "P i")
      case Pi: True
      with "1.prems" u have "l = i" by simp
      with Pi True show ?thesis by auto
    next
      case nPi: False
      with "1.prems" u have "find P [i + 1..j] = Some l" by simp
      with "1.IH" [OF True] have ih: "P l \<and> i + 1 \<le> l \<and> l \<le> j \<and> (\<forall>k. i + 1 \<le> k \<and> k < l \<longrightarrow> \<not> P k)"
        by simp
      have "\<not> P k" if "i \<le> k \<and> k < l" for k
      proof (cases "k = i")
        case True
        with nPi show ?thesis by simp
      next
        case False
        with that have "i + 1 \<le> k \<and> k < l" by simp
        with ih show ?thesis by blast
      qed
      with ih show ?thesis by auto
    qed
  qed
qed

lemma find_upto_None:
  "find P [i..j] = None \<longleftrightarrow> (\<forall>k. i \<le> k \<and> k \<le> j \<longrightarrow> \<not> P k)"
  by (auto simp: find_None_iff)

lemma deriveStatus_Some:
  "deriveStatusLabelFromUnknownLabels unknownLabels = Some l \<Longrightarrow>
     \<exists>labelArray. unknownLabels = Some labelArray \<and> l \<in> set (normalizedLabelsOf labelArray)
       \<and> 1 \<le> l \<and> l \<le> 6
       \<and> (\<forall>k. 1 \<le> k \<and> k < l \<longrightarrow> k \<notin> set (normalizedLabelsOf labelArray))"
  by (auto simp: deriveStatusLabelFromUnknownLabels_def STATUS_LABEL_IDENTIFIERS_upto
      split: option.splits dest!: find_upto_Some)

lemma deriveStatus_None:
  "deriveStatusLabelFromUnknownLabels (Some labelArray) = None \<longleftrightarrow>
     (\<forall>k. 1 \<le> k \<and> k \<le> 6 \<longrightarrow> k \<notin> set (normalizedLabelsOf labelArray))"
  by (simp add: deriveStatusLabelFromUnknownLabels_def STATUS_LABEL_IDENTIFIERS_upto find_upto_None)

lemma deriveStatus_first_match:
  assumes "l \<in> set (normalizedLabelsOf labelArray)" and "1 \<le> l" and "l \<le> 6"
    and "\<forall>k. 1 \<le> k \<and> k < l \<longrightarrow> k \<notin> set (normalizedLabelsOf labelArray)"
  shows "deriveStatusLabelFromUnknownLabels (Some labelArray) = Some l"
proof (cases "deriveStatusLabelFromUnknownLabels (Some labelArray)")
  case None
  with assms show ?thesis by (auto simp: deriveStatus_None)
next
  case (Some l')
  from deriveStatus_Some [OF Some]
  have l': "l' \<in> set (normalizedLabelsOf labelArray)" "1 \<le> l'" "l' \<le> 6"
    "\<forall>k. 1 \<le> k \<and> k < l' \<longrightarrow> k \<notin> set (normalizedLabelsOf labelArray)"
    by auto
  have "\<not> l' < l" using assms(4) l'(1,2) by blast
  moreover have "\<not> l < l'" using l'(4) assms(1,2) by blast
  ultimately show ?thesis using Some by simp
qed

lemma recordUserListStatus_no_label:
  "deriveStatusLabelFromUnknownLabels (rawLabels userListEntry) = None \<Longrightarrow>
     recordUserListStatus userListEntry statuses = statuses"
  by (simp add: recordUserListStatus_def Let_def split: option.splits)

lemma initialStatus_default:
  "statuses (listItemIdentifierKey identifier) = None \<Longrightarrow>
     initialStatusLabelIdentifier statuses identifier = 5"
  by (simp add: initialStatusLabelIdentifier_def)

lemma derive_4_2: "deriveStatusLabelFromUnknownLabels (Some [LabelNumber 4, LabelNumber 2]) = Some 2"
  by (simp add: deriveStatusLabelFromUnknownLabels_def normalizedLabelsOf_def List.map_filter_def
      normalizeLabel_def STATUS_LABEL_IDENTIFIERS_def)

lemma statuses_without_labels:
  "\<forall>e \<in> set entries. deriveStatusLabelFromUnknownLabels (rawLabels e) = None \<Longrightarrow>
     fold recordUserListStatus entries statuses = statuses"
  by (induction entries arbitrary: statuses) (simp_all add: recordUserListStatus_no_label)

text \<open>
  Claim C7. The derived status of a label array is the first of the identifiers 1, 2, 3, 4,
  5, 6, taken in that order, that occurs among the normalised labels: the least status
  identifier present. Labels [4, 2] derive 2 (finished). When no status label matches, the
  derivation gives no status, the entry adds nothing to the status map the list fetch
  builds, and the list item shows 5 (wishlist) for an identifier without a status in the
  map; nothing is written for it.
\<close>

theorem status_derivation_first_match:
  "(deriveStatusLabelFromUnknownLabels (Some labelArray) = Some l \<longleftrightarrow>
      l \<in> set (normalizedLabelsOf labelArray) \<and> 1 \<le> l \<and> l \<le> 6
      \<and> (\<forall>k. 1 \<le> k \<and> k < l \<longrightarrow> k \<notin> set (normalizedLabelsOf labelArray)))
   \<and> deriveStatusLabelFromUnknownLabels (Some [LabelNumber 4, LabelNumber 2]) = Some 2
   \<and> (deriveStatusLabelFromUnknownLabels (rawLabels userListEntry) = None \<longrightarrow>
        recordUserListStatus userListEntry statuses = statuses)
   \<and> ((\<forall>e \<in> set entries. deriveStatusLabelFromUnknownLabels (rawLabels e) = None) \<longrightarrow>
        normalizedUserListStatusesOf entries = Map.empty
        \<and> initialStatusLabelIdentifier (normalizedUserListStatusesOf entries) shownId = 5)
   \<and> (statuses (listItemIdentifierKey shownId) = None \<longrightarrow>
        initialStatusLabelIdentifier statuses shownId = 5)"
proof -
  have a: "deriveStatusLabelFromUnknownLabels (Some labelArray) = Some l \<longleftrightarrow>
      l \<in> set (normalizedLabelsOf labelArray) \<and> 1 \<le> l \<and> l \<le> 6
      \<and> (\<forall>k. 1 \<le> k \<and> k < l \<longrightarrow> k \<notin> set (normalizedLabelsOf labelArray))"
    using deriveStatus_Some [of "Some labelArray" l] deriveStatus_first_match [of l labelArray]
    by blast
  have d: "normalizedUserListStatusesOf entries = Map.empty
        \<and> initialStatusLabelIdentifier (normalizedUserListStatusesOf entries) shownId = 5"
    if "\<forall>e \<in> set entries. deriveStatusLabelFromUnknownLabels (rawLabels e) = None"
    using statuses_without_labels [OF that, of Map.empty]
    by (simp add: normalizedUserListStatusesOf_def initialStatusLabelIdentifier_def)
  show ?thesis
    using a derive_4_2 d recordUserListStatus_no_label [of userListEntry statuses]
      initialStatus_default [of statuses shownId]
    by blast
qed

theorem status_derivation_first_match_witness:
  "deriveStatusLabelFromUnknownLabels (Some [LabelNumber 4, LabelNumber 2]) = Some 2
   \<and> 2 \<in> set (normalizedLabelsOf [LabelNumber 4, LabelNumber 2])
   \<and> 1 \<notin> set (normalizedLabelsOf [LabelNumber 4, LabelNumber 2])
   \<and> deriveStatusLabelFromUnknownLabels (rawLabels unlabelledEntry) = None
   \<and> recordUserListStatus unlabelledEntry Map.empty = Map.empty
   \<and> normalizedUserListStatusesOf [unlabelledEntry] = Map.empty
   \<and> initialStatusLabelIdentifier (normalizedUserListStatusesOf [unlabelledEntry]) ''v17'' = 5
   \<and> initialStatusLabelIdentifier Map.empty ''v17'' = 5"
proof -
  have n: "normalizedLabelsOf [LabelNumber 4, LabelNumber 2] = [4, 2]"
    by (simp add: normalizedLabelsOf_def List.map_filter_def normalizeLabel_def)
  have least: "\<forall>k::int. 1 \<le> k \<and> k < 2 \<longrightarrow> k \<notin> set (normalizedLabelsOf [LabelNumber 4, LabelNumber 2])"
    by (simp add: n)
  have none: "deriveStatusLabelFromUnknownLabels (rawLabels unlabelledEntry) = None"
    by (simp add: unlabelledEntry_def deriveStatusLabelFromUnknownLabels_def normalizedLabelsOf_def
        List.map_filter_def normalizeLabel_def STATUS_LABEL_IDENTIFIERS_def)
  have all: "\<forall>e \<in> set [unlabelledEntry]. deriveStatusLabelFromUnknownLabels (rawLabels e) = None"
    using none by simp
  show ?thesis
    using n least none all
      status_derivation_first_match
        [of "[LabelNumber 4, LabelNumber 2]" 2 unlabelledEntry Map.empty "[unlabelledEntry]" "''v17''"]
    by simp
qed

section \<open>Hydration of the personal list\<close>

lemma placeholderEntry_isPlaceholder: "isPlaceholder (placeholderEntry identifier)"
  by (simp add: isPlaceholder_def placeholderEntry_def trim_Nil)

lemma bare_entries_are_placeholders:
  "rawVn userListEntry = VnScalar bareValue \<Longrightarrow> normalizeUserListEntry userListEntry = Some row \<Longrightarrow>
     isPlaceholder row"
  by (auto simp: normalizeUserListEntry_def Let_def placeholderEntry_isPlaceholder
      split: option.splits if_splits)

























section \<open>Links in rendered descriptions\<close>

lemma normalizeUrl_Some:
  "normalizeUrl parseUrl rawUrl = Some link \<Longrightarrow> safeLink parseUrl link"
  by (auto simp: normalizeUrl_def safeLink_def Let_def split: if_splits option.splits)

lemma normalizeUrl_None:
  "trim rawUrl = [] \<or> parseUrl (withProtocol (trim rawUrl)) = None
     \<or> (\<exists>parsedUrl. parseUrl (withProtocol (trim rawUrl)) = Some parsedUrl
           \<and> \<not> allowedProtocol (protocol parsedUrl))
   \<Longrightarrow> normalizeUrl parseUrl rawUrl = None"
  by (auto simp: normalizeUrl_def Let_def)

lemma renderTagNode_no_link:
  "normalizeUrl parseUrl (linkSource node) = None \<Longrightarrow> tag node = TagUrl \<Longrightarrow>
     renderTagNode parseUrl node = Span (children node)"
  by (simp add: renderTagNode_def)

lemma renderTagNode_link:
  "renderTagNode parseUrl node = Anchor link nodes \<Longrightarrow>
     normalizeUrl parseUrl (linkSource node) = Some link \<and> nodes = children node
     \<and> tag node \<noteq> TagB \<and> tag node \<noteq> TagI \<and> tag node \<noteq> TagU"
  by (auto simp: renderTagNode_def Let_def split: if_splits option.splits)

lemma linkTargets_renderTagNode:
  "h \<in> set (linkTargets (renderTagNode parseUrl node)) \<Longrightarrow>
     safeLink parseUrl h \<or> h \<in> set (allLinkTargets (children node))"
  by (auto simp: renderTagNode_def Let_def allLinkTargets_def normalizeUrl_Some
      split: if_splits option.splits)

lemma stackSafe_pushChild:
  "stackSafe parseUrl parseStack \<Longrightarrow> \<forall>h \<in> set (linkTargets child). safeLink parseUrl h \<Longrightarrow>
     stackSafe parseUrl (pushChild child parseStack)"
  by (cases parseStack) (auto simp: stackSafe_def pushChild_def allLinkTargets_def)

lemma stackSafe_tl: "stackSafe parseUrl (node # outer) \<Longrightarrow> stackSafe parseUrl outer"
  by (simp add: stackSafe_def)

lemma stackSafe_rendered:
  "stackSafe parseUrl (node # outer) \<Longrightarrow> \<forall>h \<in> set (linkTargets (renderTagNode parseUrl node)). safeLink parseUrl h"
  using linkTargets_renderTagNode [of _ parseUrl node]
  by (auto simp: stackSafe_def)

lemma stackSafe_processTagToken:
  assumes "stackSafe parseUrl parseStack"
  shows "stackSafe parseUrl (processTagToken parseUrl tokenBodyRaw matched parseStack)"
proof (cases parseStack)
  case Nil
  then show ?thesis
    by (auto simp: processTagToken_def Let_def stackSafe_def pushChild_def allLinkTargets_def
        split: option.splits)
next
  case (Cons activeNode outer)
  have asText: "stackSafe parseUrl (pushChild (TextNode matched) parseStack)"
    using assms by (intro stackSafe_pushChild) simp_all
  have closed: "stackSafe parseUrl (pushChild (renderTagNode parseUrl activeNode) outer)"
    using assms Cons stackSafe_tl [of parseUrl activeNode outer]
      stackSafe_rendered [of parseUrl activeNode outer]
    by (intro stackSafe_pushChild) simp_all
  have opened: "stackSafe parseUrl (\<lparr>tag = t, url = u, children = []\<rparr> # parseStack)" for t u
    using assms by (simp add: stackSafe_def allLinkTargets_def)
  show ?thesis
    using asText closed opened Cons
    by (auto simp: processTagToken_def Let_def split: option.splits)
qed

lemma stackSafe_processSegment:
  "stackSafe parseUrl parseStack \<Longrightarrow> stackSafe parseUrl (processSegment parseUrl seg parseStack)"
  by (auto simp: processSegment_def stackSafe_processTagToken
      intro!: stackSafe_pushChild split: segment.splits token.splits)

lemma stackSafe_fold:
  "stackSafe parseUrl parseStack \<Longrightarrow> stackSafe parseUrl (fold (processSegment parseUrl) segs parseStack)"
  by (induction segs arbitrary: parseStack) (simp_all add: stackSafe_processSegment)

lemma stackSafe_unwindDangling:
  "stackSafe parseUrl parseStack \<Longrightarrow>
     \<forall>h \<in> set (allLinkTargets (unwindDangling parseStack)). safeLink parseUrl h"
proof (induction parseStack rule: unwindDangling.induct)
  case 1
  then show ?case by (simp add: allLinkTargets_def)
next
  case (2 rootNode)
  then show ?case by (simp add: stackSafe_def)
next
  case (3 danglingNode parentNode outer)
  have "stackSafe parseUrl
          (parentNode\<lparr>children :=
              children parentNode
              @ TextNode (''['' @ tagText (tag danglingNode) @ '']'') # children danglingNode\<rparr>
           # outer)"
    using "3.prems" by (auto simp: stackSafe_def allLinkTargets_def)
  from "3.IH" [OF this] show ?case by simp
qed

lemma rendered_links_safe:
  "h \<in> set (allLinkTargets (renderVndbDescription parseUrl descriptionText)) \<Longrightarrow> safeLink parseUrl h"
proof -
  have "stackSafe parseUrl [\<lparr>tag = TagRoot, url = None, children = []\<rparr>]"
    by (simp add: stackSafe_def allLinkTargets_def)
  then have "stackSafe parseUrl
      (fold (processSegment parseUrl) (scanTokens descriptionText [] 0)
          [\<lparr>tag = TagRoot, url = None, children = []\<rparr>])"
    by (rule stackSafe_fold)
  from stackSafe_unwindDangling [OF this]
  show "h \<in> set (allLinkTargets (renderVndbDescription parseUrl descriptionText)) \<Longrightarrow> safeLink parseUrl h"
    by (simp add: renderVndbDescription_def)
qed

lemma sample_javascript:
  "renderVndbDescription sampleParseUrl ''[url=javascript:alert(1)]x[/url]'' = [Span [TextNode ''x'']]"
  by code_simp

lemma sample_https:
  "renderVndbDescription sampleParseUrl ''[url=https://vndb.org]site[/url]''
     = [Anchor ''https://vndb.org'' [TextNode ''site'']]"
  by code_simp

text \<open>
  Claim C10. For every description and every URL parser, each hyperlink in the rendered
  description, at any depth, points to the serialisation of a URL that parsed with protocol
  \<open>http:\<close>, \<open>https:\<close> or \<open>mailto:\<close>. A tag node is rendered as a hyperlink only
  when \<open>normalizeUrl\<close> of its URL returns that link. \<open>normalizeUrl\<close> returns null when
  the trimmed URL is empty, does not parse, or parses with any other protocol, and a
  \<open>url\<close> tag whose URL normalises to null is rendered as a \<open>span\<close> around its content.
\<close>

theorem links_only_for_allowed_schemes:
  "(\<forall>h \<in> set (allLinkTargets (renderVndbDescription parseUrl descriptionText)). safeLink parseUrl h)
   \<and> (renderTagNode parseUrl node = Anchor link nodes \<longrightarrow>
        normalizeUrl parseUrl (linkSource node) = Some link \<and> safeLink parseUrl link)
   \<and> (trim rawUrl = [] \<or> parseUrl (withProtocol (trim rawUrl)) = None
        \<or> (\<exists>parsedUrl. parseUrl (withProtocol (trim rawUrl)) = Some parsedUrl
              \<and> \<not> allowedProtocol (protocol parsedUrl))
      \<longrightarrow> normalizeUrl parseUrl rawUrl = None)
   \<and> (tag node = TagUrl \<and> normalizeUrl parseUrl (linkSource node) = None \<longrightarrow>
        renderTagNode parseUrl node = Span (children node))"
proof -
  have a: "\<forall>h \<in> set (allLinkTargets (renderVndbDescription parseUrl descriptionText)). safeLink parseUrl h"
    using rendered_links_safe by blast
  have b: "normalizeUrl parseUrl (linkSource node) = Some link \<and> safeLink parseUrl link"
    if "renderTagNode parseUrl node = Anchor link nodes"
    using renderTagNode_link [OF that] normalizeUrl_Some [of parseUrl "linkSource node" link] by simp
  have c: "normalizeUrl parseUrl rawUrl = None"
    if "trim rawUrl = [] \<or> parseUrl (withProtocol (trim rawUrl)) = None
        \<or> (\<exists>parsedUrl. parseUrl (withProtocol (trim rawUrl)) = Some parsedUrl
              \<and> \<not> allowedProtocol (protocol parsedUrl))"
    using that by (rule normalizeUrl_None)
  have d: "renderTagNode parseUrl node = Span (children node)"
    if "tag node = TagUrl \<and> normalizeUrl parseUrl (linkSource node) = None"
    using that renderTagNode_no_link [of parseUrl node] by simp
  show ?thesis using a b c d by blast
qed

theorem links_only_for_allowed_schemes_witness:
  "renderVndbDescription sampleParseUrl ''[url=https://vndb.org]site[/url]''
     = [Anchor ''https://vndb.org'' [TextNode ''site'']]
   \<and> safeLink sampleParseUrl ''https://vndb.org''
   \<and> sampleParseUrl (withProtocol (trim ''javascript:alert(1)''))
       = Some \<lparr>protocol = ''javascript:'', serialized = ''javascript:alert(1)''\<rparr>
   \<and> \<not> allowedProtocol ''javascript:''
   \<and> normalizeUrl sampleParseUrl ''javascript:alert(1)'' = None
   \<and> sampleParseUrl (withProtocol (trim ''not a url'')) = None
   \<and> normalizeUrl sampleParseUrl ''not a url'' = None
   \<and> renderTagNode sampleParseUrl
         \<lparr>tag = TagUrl, url = Some ''javascript:alert(1)'', children = [TextNode ''x'']\<rparr>
       = Span [TextNode ''x'']
   \<and> renderVndbDescription sampleParseUrl ''[url=javascript:alert(1)]x[/url]'' = [Span [TextNode ''x'']]"
proof -
  let ?node = "\<lparr>tag = TagUrl, url = Some ''javascript:alert(1)'', children = [TextNode ''x'']\<rparr>"
  let ?text = "''[url=https://vndb.org]site[/url]''"
  have js: "sampleParseUrl (withProtocol (trim ''javascript:alert(1)''))
       = Some \<lparr>protocol = ''javascript:'', serialized = ''javascript:alert(1)''\<rparr>"
    by code_simp
  have notAllowed: "\<not> allowedProtocol ''javascript:''"
    by (simp add: allowedProtocol_def)
  have unparseable: "sampleParseUrl (withProtocol (trim ''not a url'')) = None"
    by code_simp
  have source: "linkSource ?node = ''javascript:alert(1)''"
    by (simp add: linkSource_def)
  have targets: "allLinkTargets [Anchor ''https://vndb.org'' [TextNode ''site'']] = [''https://vndb.org'']"
    by (simp add: allLinkTargets_def)
  have n1: "normalizeUrl sampleParseUrl ''javascript:alert(1)'' = None"
    using js notAllowed
      links_only_for_allowed_schemes [of sampleParseUrl ?text ?node "[]" "[]" "''javascript:alert(1)''"]
    by simp
  have n2: "normalizeUrl sampleParseUrl ''not a url'' = None"
    using unparseable
      links_only_for_allowed_schemes [of sampleParseUrl ?text ?node "[]" "[]" "''not a url''"]
    by simp
  have safe: "safeLink sampleParseUrl ''https://vndb.org''"
    using sample_https targets
      links_only_for_allowed_schemes [of sampleParseUrl ?text ?node "[]" "[]" "''not a url''"]
    by simp
  have span: "renderTagNode sampleParseUrl ?node = Span [TextNode ''x'']"
    using n1 source
      links_only_for_allowed_schemes [of sampleParseUrl ?text ?node "[]" "[]" "''not a url''"]
    by simp
  show ?thesis
    using sample_https sample_javascript js notAllowed unparseable n1 n2 safe span by simp
qed

end
